theory Spec2Isabelle
  imports Complex_Main "HOL-Library.Log_Nat"
begin

section \<open>The page: elements, listeners and scheduled callbacks\<close>

text \<open>
  The three controllers of the repository (\<open>FadeEffect\<close>, \<open>AnimacionesScroll\<close>,
  \<open>BarraNavegacion\<close>) act on the document through references to elements. A reference
  is a number; the page maps references to the facets of an element that the scripts read
  or write. A controller that forgets a reference (\<open>this.burger = null\<close>) does not change the
  element itself, which is why the page is a store and the controllers hold references.

  A finite JavaScript number is a rational: timestamps, durations and pixel offsets. The
  heights of the viewport are integers, as the DOM declares them. The division that decides
  whether an element is in view rounds as the division of doubles does; the arithmetic of
  the fade is exact. The inline style \<open>opacity\<close> holds the decimal text of a number and is
  modelled by the number that the text denotes (\<open>'0'\<close> is 0, \<open>'1'\<close> is 1).
\<close>

type_synonym ref = nat

datatype error = TypeError

text \<open>
  Function objects that the scripts register as listeners, named by the place that creates
  them: the bound methods kept in \<open>_handlers\<close>, the per-item arrow functions of
  \<open>setupEventListeners\<close> (the click handler and the anonymous keydown handler, each closed
  over its item), the bound \<open>_scrollHandler\<close> of the scroll fallback, and the one-shot
  arrow function that \<open>FadeEffect.init\<close> registers for \<open>DOMContentLoaded\<close>.
\<close>

datatype listener =
    BoundOnBurgerClick
  | BoundOnBurgerKeyDown
  | BoundOnDocClick
  | BoundOnWindowScroll
  | BoundOnLangMenuClick
  | BoundOnLangMenuKeyDown
  | NavClick ref
  | NavKeyDown ref
  | LangClick ref
  | LangKeyDown ref
  | BoundHandleScroll
  | FadeStart

record element =
  classList :: "string list"
  attributes :: "string \<rightharpoonup> string"
  opacity :: rat
  willChange :: string
  top :: rat
  listeners :: "(string \<times> listener) list"
  navClickHandler :: "listener option"
  langClickHandler :: "listener option"

text \<open>
  \<open>query\<close> is \<open>document.querySelectorAll\<close>: the references matching a selector, in document
  order. \<open>timers\<close> are the pending \<open>setTimeout\<close> callbacks (handle and due time),
  \<open>frames\<close> the handles of the pending \<open>requestAnimationFrame\<close> callbacks. Handles are
  positive integers, so that a handle is always truthy. \<open>cleanupRuns\<close> is not part of the
  browser: it counts the calls of \<open>FadeEffect.cleanupStyle\<close>.
\<close>

record page =
  elems :: "ref \<Rightarrow> element"
  query :: "string \<Rightarrow> ref list"
  docListeners :: "(string \<times> listener) list"
  winListeners :: "(string \<times> listener) list"
  timers :: "(nat \<times> rat) list"
  frames :: "nat list"
  lastHandle :: nat
  clock :: rat
  innerHeight :: int
  clientHeight :: int
  reducedMotion :: bool
  hasIntersectionObserver :: bool
  readyState :: string
  cleanupRuns :: nat

definition update_element :: "ref \<Rightarrow> (element \<Rightarrow> element) \<Rightarrow> page \<Rightarrow> page" where
  "update_element r g p = p\<lparr>elems := (elems p)(r := g (elems p r))\<rparr>"

definition truthy :: "nat option \<Rightarrow> bool" where
  "truthy h = (case h of None \<Rightarrow> False | Some n \<Rightarrow> n \<noteq> 0)"

definition requestAnimationFrame :: "page \<Rightarrow> nat \<times> page" where
  "requestAnimationFrame p =
     (let h = Suc (lastHandle p)
      in (h, p\<lparr>frames := frames p @ [h], lastHandle := h\<rparr>))"

definition cancelAnimationFrame :: "nat \<Rightarrow> page \<Rightarrow> page" where
  "cancelAnimationFrame h p = p\<lparr>frames := filter (\<lambda>x. x \<noteq> h) (frames p)\<rparr>"

subsection \<open>domUtils.js\<close>

text \<open>The warnings that both functions log are not modelled.\<close>

definition findElement :: "page \<Rightarrow> string \<Rightarrow> ref option" where
  "findElement p sel = (case query p sel of [] \<Rightarrow> None | r # _ \<Rightarrow> Some r)"

definition findElements :: "page \<Rightarrow> string \<Rightarrow> ref list" where
  "findElements p sel = query p sel"

section \<open>fadeEffect.js\<close>

record FadeEffect =
  selector :: string
  duration :: rat
  rafId :: "nat option"
  startTime :: "rat option"
  element :: "ref option"

text \<open>\<open>cleanupStyle\<close>: nothing without an element; else clear \<open>willChange\<close>, opacity \<open>'1'\<close>.\<close>

definition cleanupStyle :: "FadeEffect \<Rightarrow> page \<Rightarrow> page" where
  "cleanupStyle f p =
     (let p1 = p\<lparr>cleanupRuns := Suc (cleanupRuns p)\<rparr>
      in case element f of
           None \<Rightarrow> p1
         | Some r \<Rightarrow> update_element r (\<lambda>e. e\<lparr>willChange := [], opacity := 1\<rparr>) p1)"

text \<open>\<open>Math.min(1, elapsed / Math.max(1, this.duration))\<close>\<close>

definition progress :: "rat \<Rightarrow> rat \<Rightarrow> rat" where
  "progress d elapsed = min 1 (elapsed / max 1 d)"

text \<open>
  The arrow function \<open>step\<close> of \<open>start\<close>. \<open>!this.startTime\<close> holds for \<open>null\<close> and for 0.
  Writing the style of a missing element raises a TypeError.
\<close>

definition step :: "rat \<Rightarrow> FadeEffect \<times> page \<Rightarrow> error + FadeEffect \<times> page" where
  "step timestamp s =
     (let f = fst s; p = snd s;
          f1 = (if startTime f = None \<or> startTime f = Some 0
                then f\<lparr>startTime := Some timestamp\<rparr> else f);
          elapsed = timestamp - the (startTime f1);
          pr = progress (duration f1) elapsed
      in case element f1 of
           None \<Rightarrow> Inl TypeError
         | Some r \<Rightarrow>
             (let p1 = update_element r (\<lambda>e. e\<lparr>opacity := pr\<rparr>) p
              in if pr < 1
                 then (let hp = requestAnimationFrame p1
                       in Inr (f1\<lparr>rafId := Some (fst hp)\<rparr>, snd hp))
                 else Inr (f1, cleanupStyle f1 p1)))"

definition start :: "FadeEffect \<Rightarrow> page \<Rightarrow> FadeEffect \<times> page" where
  "start f p =
     (let f1 = f\<lparr>element := findElement p (selector f)\<rparr>
      in case element f1 of
           None \<Rightarrow> (f1, p)
         | Some r \<Rightarrow>
             (let p1 = update_element r (\<lambda>e. e\<lparr>opacity := 0\<rparr>) p;
                  p2 = update_element r (\<lambda>e. e\<lparr>willChange := ''opacity''\<rparr>) p1;
                  f2 = f1\<lparr>startTime := None\<rparr>;
                  hp = requestAnimationFrame p2
              in (f2\<lparr>rafId := Some (fst hp)\<rparr>, snd hp)))"

text \<open>
  \<open>init\<close>: with reduced motion the element is shown at once; while the document is loading
  the start is deferred to a one-shot \<open>DOMContentLoaded\<close> listener; else the fade starts.
\<close>

definition fade_init :: "FadeEffect \<Rightarrow> page \<Rightarrow> FadeEffect \<times> page" where
  "fade_init f p =
     (if reducedMotion p
      then (case findElement p (selector f) of
              None \<Rightarrow> (f, p)
            | Some r \<Rightarrow> (f, update_element r (\<lambda>e. e\<lparr>opacity := 1\<rparr>) p))
      else if readyState p = ''loading''
      then (f, p\<lparr>docListeners := docListeners p @ [(''DOMContentLoaded'', FadeStart)]\<rparr>)
      else start f p)"

text \<open>The constructor: \<open>this.duration = Math.max(0, duration)\<close>.\<close>

definition fade_constructor :: "string \<Rightarrow> rat \<Rightarrow> bool \<Rightarrow> page \<Rightarrow> FadeEffect \<times> page" where
  "fade_constructor sel d autoInit p =
     (let f = \<lparr>selector = sel, duration = max 0 d, rafId = None, startTime = None,
               element = None\<rparr>
      in if autoInit then fade_init f p else (f, p))"

text \<open>
  One rendered frame at time \<open>timestamp\<close>: the browser takes the pending callbacks and runs
  each with the frame's timestamp. On a page that hosts only the fade, each of them is
  \<open>step\<close>. A run of the frame loop is a sequence of frames.
\<close>

fun run_steps :: "rat \<Rightarrow> nat list \<Rightarrow> FadeEffect \<times> page \<Rightarrow> error + FadeEffect \<times> page" where
  "run_steps timestamp [] s = Inr s"
| "run_steps timestamp (h # hs) s =
     (case step timestamp s of Inl e \<Rightarrow> Inl e | Inr s' \<Rightarrow> run_steps timestamp hs s')"

definition fade_frame :: "rat \<Rightarrow> FadeEffect \<times> page \<Rightarrow> error + FadeEffect \<times> page" where
  "fade_frame timestamp s =
     run_steps timestamp (frames (snd s)) (fst s, (snd s)\<lparr>frames := []\<rparr>)"

fun fade_run :: "rat list \<Rightarrow> FadeEffect \<times> page \<Rightarrow> error + FadeEffect \<times> page" where
  "fade_run [] s = Inr s"
| "fade_run (t # ts) s =
     (case fade_frame t s of Inl e \<Rightarrow> Inl e | Inr s' \<Rightarrow> fade_run ts s')"

text \<open>
  What the properties below observe of a run: the element's opacity and \<open>willChange\<close>, the number
  of cleanups so far and the frame callbacks still pending; nothing when the run raised.
\<close>

definition fade_observe ::
  "ref \<Rightarrow> error + FadeEffect \<times> page \<Rightarrow> (rat \<times> string \<times> nat \<times> nat list) option" where
  "fade_observe r res =
     (case res of
        Inl e \<Rightarrow> None
      | Inr s \<Rightarrow> Some (opacity (elems (snd s) r), willChange (elems (snd s) r),
                       cleanupRuns (snd s), frames (snd s)))"

text \<open>
  The shape of the state between the first frame and the settling one: the element is
  resolved, the start time recorded, one frame callback pending.
\<close>

definition animating :: "ref \<Rightarrow> rat \<Rightarrow> rat \<Rightarrow> nat \<Rightarrow> FadeEffect \<times> page \<Rightarrow> bool" where
  "animating r s d c st =
     (element (fst st) = Some r \<and> startTime (fst st) = Some s \<and> duration (fst st) = d \<and>
      length (frames (snd st)) = 1 \<and> cleanupRuns (snd st) = c)"

text \<open>The fade is under way on the element: its opacity is below 1 and the hint is set.\<close>

definition fading :: "ref \<Rightarrow> FadeEffect \<times> page \<Rightarrow> bool" where
  "fading r st =
     (opacity (elems (snd st) r) < 1 \<and> willChange (elems (snd st) r) = ''opacity'')"

section \<open>Class lists\<close>

text \<open>
  \<open>DOMTokenList\<close>: an ordered set of class names. \<open>add\<close> appends a missing token,
  \<open>remove\<close> deletes it, \<open>toggle\<close> does the one or the other and returns whether the token
  is present afterwards.
\<close>

definition classList_contains :: "string list \<Rightarrow> string \<Rightarrow> bool" where
  "classList_contains cl c = (c \<in> set cl)"

definition classList_add :: "string list \<Rightarrow> string \<Rightarrow> string list" where
  "classList_add cl c = (if c \<in> set cl then cl else cl @ [c])"

definition classList_remove :: "string list \<Rightarrow> string \<Rightarrow> string list" where
  "classList_remove cl c = filter (\<lambda>x. x \<noteq> c) cl"

definition classList_toggle :: "string list \<Rightarrow> string \<Rightarrow> string list \<times> bool" where
  "classList_toggle cl c =
     (if c \<in> set cl then (classList_remove cl c, False) else (cl @ [c], True))"

definition add_class :: "string \<Rightarrow> ref \<Rightarrow> page \<Rightarrow> page" where
  "add_class c r p = update_element r (\<lambda>e. e\<lparr>classList := classList_add (classList e) c\<rparr>) p"

definition remove_class :: "string \<Rightarrow> ref \<Rightarrow> page \<Rightarrow> page" where
  "remove_class c r p =
     update_element r (\<lambda>e. e\<lparr>classList := classList_remove (classList e) c\<rparr>) p"

definition toggle_class :: "string \<Rightarrow> ref \<Rightarrow> page \<Rightarrow> page" where
  "toggle_class c r p =
     update_element r (\<lambda>e. e\<lparr>classList := fst (classList_toggle (classList e) c)\<rparr>) p"

section \<open>Division of doubles\<close>

text \<open>
  The quotient of two doubles is the double nearest to the exact quotient, a tie going to
  the even significand. A double has 53 significant bits, and its last bit is worth at least
  \<open>2^-1074\<close>. \<open>double_exponent q\<close> is the integer \<open>e\<close> with \<open>2^e \<le> |q| < 2^(e+1)\<close>. Quotients of
  magnitude \<open>2^1024\<close> and more, which a double rounds to an infinity, are outside this
  model; no quotient of a viewport height by 1.25 is that large.
\<close>

definition pow2 :: "int \<Rightarrow> rat" where
  "pow2 e = (if 0 \<le> e then 2 ^ nat e else 1 / 2 ^ nat (- e))"

definition double_exponent :: "rat \<Rightarrow> int" where
  "double_exponent q =
     (if 1 \<le> \<bar>q\<bar> then bitlen \<lfloor>\<bar>q\<bar>\<rfloor> - 1 else - bitlen (\<lceil>1 / \<bar>q\<bar>\<rceil> - 1))"

definition round_half_even :: "rat \<Rightarrow> int" where
  "round_half_even x =
     (let f = \<lfloor>x\<rfloor>; r = x - of_int f
      in if r < 1 / 2 then f else if 1 / 2 < r then f + 1 else if even f then f else f + 1)"

definition to_double :: "rat \<Rightarrow> rat" where
  "to_double q =
     (if q = 0 then 0
      else (let s = max (double_exponent q - 52) (- 1074)
            in of_int (round_half_even (q / pow2 s)) * pow2 s))"

definition double_div :: "rat \<Rightarrow> rat \<Rightarrow> rat" where
  "double_div x y = to_double (x / y)"

section \<open>scrollAnimations.js\<close>

text \<open>
  The controller's fields. \<open>sr_selector\<close>, \<open>scrollHandler\<close> and \<open>sr_rafId\<close> are the source's
  \<open>selector\<close>, \<open>_scrollHandler\<close> and \<open>_rafId\<close>. The observer is the list of the elements
  that it observes; \<open>root\<close>, \<open>rootMargin\<close> and \<open>threshold\<close> only tell the browser when to
  notify and are not modelled: the notifications are inputs.
\<close>

record AnimacionesScroll =
  sr_selector :: string
  claseActiva :: string
  observarUnaVez :: bool
  elementos :: "ref list"
  observer :: "ref list option"
  scrollHandler :: "listener option"
  sr_rafId :: "nat option"

record entry =
  target :: ref
  isIntersecting :: bool

definition observe :: "ref \<Rightarrow> ref list \<Rightarrow> ref list" where
  "observe el ts = (if el \<in> set ts then ts else ts @ [el])"

definition unobserve :: "ref \<Rightarrow> ref list \<Rightarrow> ref list" where
  "unobserve el ts = filter (\<lambda>x. x \<noteq> el) ts"

text \<open>The body of the observer's callback for one entry of a notification.\<close>

definition observer_entry ::
  "entry \<Rightarrow> AnimacionesScroll \<times> page \<Rightarrow> AnimacionesScroll \<times> page" where
  "observer_entry en s =
     (let a = fst s; p = snd s; el = target en
      in if isIntersecting en
         then (let p1 = add_class (claseActiva a) el p
               in if observarUnaVez a \<and> observer a \<noteq> None
                  then (a\<lparr>observer := map_option (unobserve el) (observer a)\<rparr>, p1)
                  else (a, p1))
         else if \<not> observarUnaVez a
              then (a, remove_class (claseActiva a) el p)
              else (a, p))"

definition observer_callback ::
  "entry list \<Rightarrow> AnimacionesScroll \<times> page \<Rightarrow> AnimacionesScroll \<times> page" where
  "observer_callback entries s = fold observer_entry entries s"

text \<open>A sequence of notifications, each a batch of entries.\<close>

definition notifications ::
  "entry list list \<Rightarrow> AnimacionesScroll \<times> page \<Rightarrow> AnimacionesScroll \<times> page" where
  "notifications batches s = fold observer_callback batches s"

definition setupObserver :: "AnimacionesScroll \<Rightarrow> page \<Rightarrow> AnimacionesScroll \<times> page" where
  "setupObserver a p =
     (a\<lparr>observer := Some (fold observe (elementos a) [])\<rparr>,
      fold (\<lambda>el. update_element el (\<lambda>e. e\<lparr>willChange := ''opacity, transform''\<rparr>))
        (elementos a) p)"

definition setupFallback :: "AnimacionesScroll \<Rightarrow> page \<Rightarrow> AnimacionesScroll \<times> page" where
  "setupFallback a p =
     (a\<lparr>scrollHandler := Some BoundHandleScroll\<rparr>,
      p\<lparr>winListeners := winListeners p @
           [(''scroll'', BoundHandleScroll), (''resize'', BoundHandleScroll)]\<rparr>)"

text \<open>\<open>window.innerHeight || document.documentElement.clientHeight\<close>\<close>

definition viewportHeight :: "page \<Rightarrow> int" where
  "viewportHeight p = (if innerHeight p \<noteq> 0 then innerHeight p else clientHeight p)"

text \<open>
  \<open>elementTop <= viewportHeight / offset\<close>, a division of doubles. With the offset 0 the
  quotient is \<open>Infinity\<close> for a positive height, and \<open>NaN\<close> or \<open>-Infinity\<close> otherwise, which
  no top is below.
\<close>

definition elementInView :: "page \<Rightarrow> ref \<Rightarrow> rat \<Rightarrow> bool" where
  "elementInView p el offset =
     (if offset = 0 then 0 < viewportHeight p
      else top (elems p el) \<le> double_div (of_int (viewportHeight p)) offset)"

definition elementOutOfView :: "page \<Rightarrow> ref \<Rightarrow> bool" where
  "elementOutOfView p el = (top (elems p el) > of_int (viewportHeight p))"

definition displayScrollElement :: "AnimacionesScroll \<Rightarrow> ref \<Rightarrow> page \<Rightarrow> page" where
  "displayScrollElement a el p = add_class (claseActiva a) el p"

definition hideScrollElement :: "AnimacionesScroll \<Rightarrow> ref \<Rightarrow> page \<Rightarrow> page" where
  "hideScrollElement a el p = remove_class (claseActiva a) el p"

text \<open>
  The animation-frame callback of \<open>handleScroll\<close>: one evaluation pass over the tracked
  elements (the offset 1.25 is \<open>5/4\<close>), then \<open>_rafId\<close> is reset.
\<close>

definition evaluate_element :: "AnimacionesScroll \<Rightarrow> ref \<Rightarrow> page \<Rightarrow> page" where
  "evaluate_element a el p =
     (if elementInView p el (5 / 4) then displayScrollElement a el p
      else if elementOutOfView p el then hideScrollElement a el p
      else p)"

definition evaluation_pass :: "AnimacionesScroll \<times> page \<Rightarrow> AnimacionesScroll \<times> page" where
  "evaluation_pass s =
     ((fst s)\<lparr>sr_rafId := None\<rparr>, fold (evaluate_element (fst s)) (elementos (fst s)) (snd s))"

definition handleScroll :: "AnimacionesScroll \<times> page \<Rightarrow> AnimacionesScroll \<times> page" where
  "handleScroll s =
     (if truthy (sr_rafId (fst s)) then s
      else (let hp = requestAnimationFrame (snd s)
            in ((fst s)\<lparr>sr_rafId := Some (fst hp)\<rparr>, snd hp)))"

text \<open>One rendered frame on a page that hosts only this controller.\<close>

definition scroll_frame :: "AnimacionesScroll \<times> page \<Rightarrow> AnimacionesScroll \<times> page" where
  "scroll_frame s =
     fold (\<lambda>h. evaluation_pass) (frames (snd s)) (fst s, (snd s)\<lparr>frames := []\<rparr>)"

definition scroll_init :: "AnimacionesScroll \<times> page \<Rightarrow> AnimacionesScroll \<times> page" where
  "scroll_init s =
     (let a = (fst s)\<lparr>elementos := findElements (snd s) (sr_selector (fst s))\<rparr>; p = snd s
      in if reducedMotion p
         then (a, fold (add_class (claseActiva a)) (elementos a) p)
         else if hasIntersectionObserver p then setupObserver a p
         else handleScroll (setupFallback a p))"

definition scroll_constructor ::
  "string \<Rightarrow> string \<Rightarrow> bool \<Rightarrow> bool \<Rightarrow> page \<Rightarrow> AnimacionesScroll \<times> page" where
  "scroll_constructor sel cls once autoInit p =
     (let a = \<lparr>sr_selector = sel, claseActiva = cls, observarUnaVez = once, elementos = [],
               observer = None, scrollHandler = None, sr_rafId = None\<rparr>
      in if autoInit then scroll_init (a, p) else (a, p))"

text \<open>The class list that one evaluation gives an element.\<close>

definition evaluated :: "AnimacionesScroll \<Rightarrow> page \<Rightarrow> ref \<Rightarrow> string list" where
  "evaluated a p el =
     (if elementInView p el (5 / 4)
      then classList_add (classList (elems p el)) (claseActiva a)
      else if elementOutOfView p el
      then classList_remove (classList (elems p el)) (claseActiva a)
      else classList (elems p el))"

text \<open>An element that the observer no longer observes.\<close>

definition unobserved :: "ref \<Rightarrow> AnimacionesScroll \<Rightarrow> bool" where
  "unobserved el a = (case observer a of None \<Rightarrow> False | Some ts \<Rightarrow> el \<notin> set ts)"

section \<open>navbar.js\<close>

subsection \<open>Listeners, attributes and timers\<close>

text \<open>
  Every function that the scripts register is freshly created, so \<open>addEventListener\<close>
  appends. \<open>removeEventListener\<close> deletes the registration of the given type and function;
  with \<open>null\<close> or \<open>undefined\<close> for the function it does nothing.
\<close>

definition addEventListener ::
  "string \<Rightarrow> listener \<Rightarrow> (string \<times> listener) list \<Rightarrow> (string \<times> listener) list" where
  "addEventListener ty l ls = ls @ [(ty, l)]"

definition removeEventListener ::
  "string \<Rightarrow> listener option \<Rightarrow> (string \<times> listener) list \<Rightarrow> (string \<times> listener) list" where
  "removeEventListener ty l ls =
     (case l of None \<Rightarrow> ls | Some f \<Rightarrow> filter (\<lambda>x. x \<noteq> (ty, f)) ls)"

definition setAttribute :: "string \<Rightarrow> string \<Rightarrow> ref \<Rightarrow> page \<Rightarrow> page" where
  "setAttribute name v r p =
     update_element r (\<lambda>e. e\<lparr>attributes := (attributes e)(name \<mapsto> v)\<rparr>) p"

definition setTimeout :: "rat \<Rightarrow> page \<Rightarrow> nat \<times> page" where
  "setTimeout delay p =
     (let h = Suc (lastHandle p)
      in (h, p\<lparr>timers := timers p @ [(h, clock p + delay)], lastHandle := h\<rparr>))"

definition clearTimeout :: "nat \<Rightarrow> page \<Rightarrow> page" where
  "clearTimeout h p = p\<lparr>timers := filter (\<lambda>t. fst t \<noteq> h) (timers p)\<rparr>"

subsection \<open>The controller\<close>

text \<open>
  \<open>_handlers\<close>: the bound handlers kept for cleanup, \<open>null\<close> until set up. The fields carry
  the prefix \<open>h_\<close> because the methods have the same names.
\<close>

record handlers =
  h_onBurgerClick :: "listener option"
  h_onBurgerKeyDown :: "listener option"
  h_onDocClick :: "listener option"
  h_onNavItemClick :: "listener option"
  h_onLangMenuClick :: "listener option"
  h_onLangMenuKeyDown :: "listener option"
  h_onLangItemClick :: "listener option"
  h_onWindowScroll :: "listener option"

record BarraNavegacion =
  selectorHeader :: string
  selectorBurger :: string
  selectorNavItems :: string
  selectorNav :: string
  selectorLangMenu :: string
  selectorLangItems :: string
  selectorLangList :: string
  header :: "ref option"
  burger :: "ref option"
  navItems :: "ref list option"
  nav :: "ref option"
  langMenu :: "ref option"
  langItems :: "ref list option"
  langList :: "ref option"
  permiteClickReciente :: bool
  clickTimeout :: "nat option"
  rafScroll :: "nat option"
  handlers :: handlers

text \<open>The constructor's options, with the defaults of the source.\<close>

record options =
  optHeader :: string
  optBurger :: string
  optNavItems :: string
  optNav :: string
  optLangMenu :: string
  optLangItems :: string
  optLangList :: string
  autoInit :: bool

definition default_options :: options where
  "default_options =
     \<lparr>optHeader = ''.header'', optBurger = ''.header__nav-burguer'',
      optNavItems = ''.header__nav-item'', optNav = ''.header__nav-list'',
      optLangMenu = ''.header__nav-langmenu'', optLangItems = ''.header__nav-langitem'',
      optLangList = ''.header__nav-langlist'', autoInit = True\<rparr>"

definition no_handlers :: handlers where
  "no_handlers =
     \<lparr>h_onBurgerClick = None, h_onBurgerKeyDown = None, h_onDocClick = None,
      h_onNavItemClick = None, h_onLangMenuClick = None, h_onLangMenuKeyDown = None,
      h_onLangItemClick = None, h_onWindowScroll = None\<rparr>"

text \<open>
  \<open>toggleMenuElements\<close>. Reading \<open>classList\<close> of a \<open>null\<close> reference raises a TypeError,
  in the order of the source: burger, nav, header.
\<close>

definition toggleMenuElements :: "BarraNavegacion \<Rightarrow> page \<Rightarrow> error + page" where
  "toggleMenuElements n p =
     (case burger n of
        None \<Rightarrow> Inl TypeError
      | Some b \<Rightarrow>
          (let burgerActive =
                 snd (classList_toggle (classList (elems p b)) ''header__nav-burguer--active'');
               p1 = toggle_class ''header__nav-burguer--active'' b p
           in case nav n of
                None \<Rightarrow> Inl TypeError
              | Some v \<Rightarrow>
                  (let p2 = toggle_class ''header__nav--active'' v p1
                   in case header n of
                        None \<Rightarrow> Inl TypeError
                      | Some h \<Rightarrow>
                          (let p3 = toggle_class ''header--active'' h p2
                           in Inr (setAttribute ''aria-expanded''
                                     (if burgerActive then ''true'' else ''false'') b p3)))))"

definition closeLangMenu :: "BarraNavegacion \<Rightarrow> page \<Rightarrow> page" where
  "closeLangMenu n p =
     (case langMenu n of
        None \<Rightarrow> p
      | Some m \<Rightarrow>
          (let p1 = (case langList n of
                       None \<Rightarrow> p
                     | Some l \<Rightarrow> remove_class ''header__nav-langlist--active'' l p);
               p2 = remove_class ''header__nav-langmenu--active'' m p1
           in setAttribute ''aria-expanded'' ''false'' m p2))"

definition toggleLangMenu :: "BarraNavegacion \<Rightarrow> page \<Rightarrow> page" where
  "toggleLangMenu n p =
     (case langMenu n of
        None \<Rightarrow> p
      | Some m \<Rightarrow>
          (let p1 = (case langList n of
                       None \<Rightarrow> p
                     | Some l \<Rightarrow> toggle_class ''header__nav-langlist--active'' l p);
               expanded =
                 snd (classList_toggle (classList (elems p1 m)) ''header__nav-langmenu--active'');
               p2 = toggle_class ''header__nav-langmenu--active'' m p1
           in setAttribute ''aria-expanded'' (if expanded then ''true'' else ''false'') m p2))"

text \<open>\<open>deactivateAllNavItems\<close>: \<open>forEach\<close> on \<open>null\<close> raises a TypeError.\<close>

definition deactivateAllNavItems :: "BarraNavegacion \<Rightarrow> page \<Rightarrow> error + page" where
  "deactivateAllNavItems n p =
     (case navItems n of
        None \<Rightarrow> Inl TypeError
      | Some items \<Rightarrow> Inr (fold (remove_class ''item--active'') items p))"

definition onBurgerClick ::
  "BarraNavegacion \<times> page \<Rightarrow> error + BarraNavegacion \<times> page" where
  "onBurgerClick s =
     (case toggleMenuElements (fst s) (snd s) of
        Inl e \<Rightarrow> Inl e
      | Inr p1 \<Rightarrow> Inr (fst s, closeLangMenu (fst s) p1))"

definition activation_key :: "string \<Rightarrow> bool" where
  "activation_key k = (k = ''Enter'' \<or> k = '' '')"

definition onBurgerKeyDown ::
  "string \<Rightarrow> BarraNavegacion \<times> page \<Rightarrow> error + BarraNavegacion \<times> page" where
  "onBurgerKeyDown k s = (if activation_key k then onBurgerClick s else Inr s)"

definition onLangMenuClick :: "BarraNavegacion \<times> page \<Rightarrow> BarraNavegacion \<times> page" where
  "onLangMenuClick s = (fst s, toggleLangMenu (fst s) (snd s))"

definition onLangMenuKeyDown ::
  "string \<Rightarrow> BarraNavegacion \<times> page \<Rightarrow> BarraNavegacion \<times> page" where
  "onLangMenuKeyDown k s = (if activation_key k then onLangMenuClick s else s)"

definition onLangItemClick :: "ref \<Rightarrow> BarraNavegacion \<times> page \<Rightarrow> BarraNavegacion \<times> page" where
  "onLangItemClick item s = (fst s, toggleLangMenu (fst s) (snd s))"

text \<open>
  \<open>onDocumentClick\<close> decides by containment in the document tree, which the page does
  not record; it is not modelled, and it touches the language menu only.

  \<open>onNavItemClick\<close>. The callback of the timeout that it sets is \<open>click_timeout_callback\<close>.
\<close>

definition onNavItemClick ::
  "ref \<Rightarrow> BarraNavegacion \<times> page \<Rightarrow> error + BarraNavegacion \<times> page" where
  "onNavItemClick item s =
     (let n1 = (fst s)\<lparr>permiteClickReciente := True\<rparr>;
          p1 = (if truthy (clickTimeout n1) then clearTimeout (the (clickTimeout n1)) (snd s)
                else snd s)
      in case toggleMenuElements n1 p1 of
           Inl e \<Rightarrow> Inl e
         | Inr p2 \<Rightarrow>
             (case deactivateAllNavItems n1 p2 of
                Inl e \<Rightarrow> Inl e
              | Inr p3 \<Rightarrow>
                  (let p4 = toggle_class ''item--active'' item p3;
                       hp = setTimeout 800 p4
                   in Inr (n1\<lparr>clickTimeout := Some (fst hp)\<rparr>, snd hp))))"

definition click_timeout_callback :: "BarraNavegacion \<Rightarrow> BarraNavegacion" where
  "click_timeout_callback n = n\<lparr>permiteClickReciente := False\<rparr>"

text \<open>The anonymous keydown listener of a navigation item.\<close>

definition navItemKeyDown ::
  "string \<Rightarrow> ref \<Rightarrow> BarraNavegacion \<times> page \<Rightarrow> error + BarraNavegacion \<times> page" where
  "navItemKeyDown k item s = (if activation_key k then onNavItemClick item s else Inr s)"

text \<open>\<open>onWindowScroll\<close> and the animation-frame callback that it requests.\<close>

definition onWindowScroll :: "BarraNavegacion \<times> page \<Rightarrow> BarraNavegacion \<times> page" where
  "onWindowScroll s =
     (if truthy (rafScroll (fst s)) then s
      else (let hp = requestAnimationFrame (snd s)
            in ((fst s)\<lparr>rafScroll := Some (fst hp)\<rparr>, snd hp)))"

definition scroll_callback ::
  "BarraNavegacion \<times> page \<Rightarrow> error + BarraNavegacion \<times> page" where
  "scroll_callback s =
     (if \<not> permiteClickReciente (fst s)
      then (case deactivateAllNavItems (fst s) (snd s) of
              Inl e \<Rightarrow> Inl e
            | Inr p1 \<Rightarrow> Inr ((fst s)\<lparr>rafScroll := None\<rparr>, p1))
      else Inr ((fst s)\<lparr>rafScroll := None\<rparr>, snd s))"

subsection \<open>Set-up and tear-down\<close>

text \<open>
  The two \<open>forEach\<close> bodies of \<open>setupEventListeners\<close>: a click handler and an anonymous
  keydown handler per item; only the click handler is kept on the item
  (\<open>_navClickHandler\<close>, \<open>_langClickHandler\<close>).
\<close>

definition setup_navItem :: "ref \<Rightarrow> page \<Rightarrow> page" where
  "setup_navItem item p =
     update_element item
       (\<lambda>e. e\<lparr>listeners :=
                  addEventListener ''keydown'' (NavKeyDown item)
                    (addEventListener ''click'' (NavClick item) (listeners e)),
                navClickHandler := Some (NavClick item)\<rparr>) p"

definition setup_langItem :: "ref \<Rightarrow> page \<Rightarrow> page" where
  "setup_langItem item p =
     update_element item
       (\<lambda>e. e\<lparr>listeners :=
                  addEventListener ''keydown'' (LangKeyDown item)
                    (addEventListener ''click'' (LangClick item) (listeners e)),
                langClickHandler := Some (LangClick item)\<rparr>) p"

definition setupEventListeners ::
  "BarraNavegacion \<times> page \<Rightarrow> error + BarraNavegacion \<times> page" where
  "setupEventListeners s =
     (let n = fst s; p = snd s;
          hs = (handlers n)
                 \<lparr>h_onBurgerClick := Some BoundOnBurgerClick,
                  h_onBurgerKeyDown := Some BoundOnBurgerKeyDown,
                  h_onDocClick := Some BoundOnDocClick,
                  h_onWindowScroll := Some BoundOnWindowScroll,
                  h_onLangMenuClick := Some BoundOnLangMenuClick,
                  h_onLangMenuKeyDown := Some BoundOnLangMenuKeyDown\<rparr>;
          n1 = n\<lparr>handlers := hs\<rparr>
      in case burger n1 of
           None \<Rightarrow> Inl TypeError
         | Some b \<Rightarrow>
             (let p1 = update_element b
                         (\<lambda>e. e\<lparr>listeners :=
                                    addEventListener ''keydown'' BoundOnBurgerKeyDown
                                      (addEventListener ''click'' BoundOnBurgerClick
                                         (listeners e))\<rparr>) p;
                  p2 = (case langMenu n1 of
                          None \<Rightarrow> p1
                        | Some m \<Rightarrow>
                            update_element m
                              (\<lambda>e. e\<lparr>listeners :=
                                         addEventListener ''keydown'' BoundOnLangMenuKeyDown
                                           (addEventListener ''click'' BoundOnLangMenuClick
                                              (listeners e))\<rparr>) p1);
                  p3 = p2\<lparr>docListeners :=
                            addEventListener ''click'' BoundOnDocClick (docListeners p2)\<rparr>
              in case navItems n1 of
                   None \<Rightarrow> Inl TypeError
                 | Some items \<Rightarrow>
                     (let p4 = fold setup_navItem items p3
                      in case langItems n1 of
                           None \<Rightarrow> Inl TypeError
                         | Some litems \<Rightarrow>
                             (let p5 = fold setup_langItem litems p4
                              in Inr (n1, p5\<lparr>winListeners :=
                                                addEventListener ''scroll'' BoundOnWindowScroll
                                                  (winListeners p5)\<rparr>)))))"

text \<open>\<open>init\<close>: all or nothing; the error that it logs is not modelled.\<close>

definition init :: "BarraNavegacion \<times> page \<Rightarrow> error + BarraNavegacion \<times> page" where
  "init s =
     (let p = snd s;
          n = (fst s)
                \<lparr>header := findElement p (selectorHeader (fst s)),
                 burger := findElement p (selectorBurger (fst s)),
                 navItems := Some (findElements p (selectorNavItems (fst s))),
                 nav := findElement p (selectorNav (fst s)),
                 langMenu := findElement p (selectorLangMenu (fst s)),
                 langItems := Some (findElements p (selectorLangItems (fst s))),
                 langList := findElement p (selectorLangList (fst s))\<rparr>
      in if burger n = None \<or> nav n = None \<or> header n = None \<or>
            length (findElements p (selectorNavItems (fst s))) = 0
         then Inr (n, p)
         else (let p1 = setAttribute ''aria-expanded'' ''false'' (the (burger n)) p;
                   p2 = (case langMenu n of
                           None \<Rightarrow> p1
                         | Some m \<Rightarrow> setAttribute ''aria-expanded'' ''false'' m p1)
               in setupEventListeners (n, p2)))"

definition nav_constructor :: "options \<Rightarrow> page \<Rightarrow> error + BarraNavegacion \<times> page" where
  "nav_constructor opts p =
     (let n = \<lparr>selectorHeader = optHeader opts, selectorBurger = optBurger opts,
               selectorNavItems = optNavItems opts, selectorNav = optNav opts,
               selectorLangMenu = optLangMenu opts, selectorLangItems = optLangItems opts,
               selectorLangList = optLangList opts,
               header = None, burger = None, navItems = None, nav = None, langMenu = None,
               langItems = None, langList = None,
               permiteClickReciente = False, clickTimeout = None, rafScroll = None,
               handlers = no_handlers\<rparr>
      in if autoInit opts then init (n, p) else Inr (n, p))"

text \<open>The two \<open>forEach\<close> bodies of \<open>destroy\<close>.\<close>

definition destroy_navItem :: "ref \<Rightarrow> page \<Rightarrow> page" where
  "destroy_navItem item p =
     (case navClickHandler (elems p item) of
        None \<Rightarrow> p
      | Some f \<Rightarrow>
          update_element item
            (\<lambda>e. e\<lparr>listeners := removeEventListener ''click'' (Some f) (listeners e),
                     navClickHandler := None\<rparr>) p)"

definition destroy_langItem :: "ref \<Rightarrow> page \<Rightarrow> page" where
  "destroy_langItem item p =
     (case langClickHandler (elems p item) of
        None \<Rightarrow> p
      | Some f \<Rightarrow>
          update_element item
            (\<lambda>e. e\<lparr>listeners := removeEventListener ''click'' (Some f) (listeners e),
                     langClickHandler := None\<rparr>) p)"

text \<open>
  \<open>destroy\<close>. \<open>this.navItems.forEach\<close> and \<open>this.langItems.forEach\<close> are not guarded:
  on \<open>null\<close> they raise a TypeError. Afterwards \<open>_handlers\<close> is the empty object, all of
  whose properties are undefined.
\<close>

definition destroy :: "BarraNavegacion \<times> page \<Rightarrow> error + BarraNavegacion \<times> page" where
  "destroy s =
     (let n = fst s; p = snd s;
          p1 = (case burger n of
                  None \<Rightarrow> p
                | Some b \<Rightarrow>
                    update_element b
                      (\<lambda>e. e\<lparr>listeners :=
                                 removeEventListener ''keydown'' (h_onBurgerKeyDown (handlers n))
                                   (removeEventListener ''click'' (h_onBurgerClick (handlers n))
                                      (listeners e))\<rparr>) p);
          p2 = (case langMenu n of
                  None \<Rightarrow> p1
                | Some m \<Rightarrow>
                    update_element m
                      (\<lambda>e. e\<lparr>listeners :=
                                 removeEventListener ''keydown'' (h_onLangMenuKeyDown (handlers n))
                                   (removeEventListener ''click'' (h_onLangMenuClick (handlers n))
                                      (listeners e))\<rparr>) p1);
          p3 = p2\<lparr>docListeners :=
                    removeEventListener ''click'' (h_onDocClick (handlers n)) (docListeners p2)\<rparr>;
          p4 = p3\<lparr>winListeners :=
                    removeEventListener ''scroll'' (h_onWindowScroll (handlers n))
                      (winListeners p3)\<rparr>
      in case navItems n of
           None \<Rightarrow> Inl TypeError
         | Some items \<Rightarrow>
             (let p5 = fold destroy_navItem items p4
              in case langItems n of
                   None \<Rightarrow> Inl TypeError
                 | Some litems \<Rightarrow>
                     (let p6 = fold destroy_langItem litems p5;
                          p7 = (if truthy (clickTimeout n)
                                then clearTimeout (the (clickTimeout n)) p6 else p6);
                          p8 = (if truthy (rafScroll n)
                                then cancelAnimationFrame (the (rafScroll n)) p7 else p7)
                      in Inr (n\<lparr>header := None, burger := None, navItems := Some [],
                                nav := None, langMenu := None, langItems := Some [],
                                langList := None, handlers := no_handlers\<rparr>, p8))))"

subsection \<open>The event loop\<close>

text \<open>
  Time passes between the events of the page. When the clock reaches \<open>t\<close>, the timeouts
  due by then have run, each resetting \<open>permiteClickReciente\<close>. A rendered frame runs the
  pending animation-frame callbacks, each of them \<open>scroll_callback\<close> on a page that hosts
  only the navigation bar.
\<close>

definition advance :: "rat \<Rightarrow> BarraNavegacion \<times> page \<Rightarrow> BarraNavegacion \<times> page" where
  "advance t s =
     (fold (\<lambda>tm. click_timeout_callback) (filter (\<lambda>tm. snd tm \<le> t) (timers (snd s))) (fst s),
      (snd s)\<lparr>timers := filter (\<lambda>tm. \<not> snd tm \<le> t) (timers (snd s)), clock := t\<rparr>)"

fun run_callbacks ::
  "nat list \<Rightarrow> BarraNavegacion \<times> page \<Rightarrow> error + BarraNavegacion \<times> page" where
  "run_callbacks [] s = Inr s"
| "run_callbacks (h # hs) s =
     (case scroll_callback s of Inl e \<Rightarrow> Inl e | Inr s' \<Rightarrow> run_callbacks hs s')"

definition nav_frame :: "BarraNavegacion \<times> page \<Rightarrow> error + BarraNavegacion \<times> page" where
  "nav_frame s = run_callbacks (frames (snd s)) (fst s, (snd s)\<lparr>frames := []\<rparr>)"

datatype nav_event =
    ClickNavItem ref
  | KeyDownNavItem string ref
  | ClickBurger
  | KeyDownBurger string
  | Scroll
  | Frame

fun nav_handle ::
  "nav_event \<Rightarrow> BarraNavegacion \<times> page \<Rightarrow> error + BarraNavegacion \<times> page" where
  "nav_handle (ClickNavItem item) s = onNavItemClick item s"
| "nav_handle (KeyDownNavItem k item) s = navItemKeyDown k item s"
| "nav_handle ClickBurger s = onBurgerClick s"
| "nav_handle (KeyDownBurger k) s = onBurgerKeyDown k s"
| "nav_handle Scroll s = Inr (onWindowScroll s)"
| "nav_handle Frame s = nav_frame s"

text \<open>A history of the page: events with the times at which they are handled.\<close>

fun nav_run ::
  "(rat \<times> nav_event) list \<Rightarrow> BarraNavegacion \<times> page \<Rightarrow> error + BarraNavegacion \<times> page" where
  "nav_run [] s = Inr s"
| "nav_run (te # tes) s =
     (case nav_handle (snd te) (advance (fst te) s) of
        Inl e \<Rightarrow> Inl e
      | Inr s' \<Rightarrow> nav_run tes s')"

subsection \<open>Observations\<close>

text \<open>
  \<open>el.classList.contains(c)\<close> and \<open>el.getAttribute('aria-expanded')\<close> on the page.
\<close>

definition has_class :: "page \<Rightarrow> ref \<Rightarrow> string \<Rightarrow> bool" where
  "has_class p r c = classList_contains (classList (elems p r)) c"

definition aria_expanded :: "page \<Rightarrow> ref \<Rightarrow> string option" where
  "aria_expanded p r = attributes (elems p r) ''aria-expanded''"

text \<open>
  Sequencing of steps that may raise, and what is left attached and scheduled after a
  history: the listeners on the given elements, on the document and on the window, the
  pending timeouts and the pending animation-frame callbacks.
\<close>

definition then_do :: "error + 'a \<Rightarrow> ('a \<Rightarrow> error + 'b) \<Rightarrow> error + 'b" where
  "then_do r f = (case r of Inl e \<Rightarrow> Inl e | Inr x \<Rightarrow> f x)"

definition remaining ::
  "ref list \<Rightarrow> error + BarraNavegacion \<times> page \<Rightarrow>
   ((ref \<times> string \<times> listener) list \<times> (string \<times> listener) list \<times>
    (string \<times> listener) list \<times> (nat \<times> rat) list \<times> nat list) option" where
  "remaining refs res =
     (case res of
        Inl e \<Rightarrow> None
      | Inr s \<Rightarrow>
          Some (concat (map (\<lambda>r. map (Pair r) (listeners (elems (snd s) r))) refs),
                docListeners (snd s), winListeners (snd s), timers (snd s), frames (snd s)))"

subsection \<open>Well-formed states and the suppression window\<close>

text \<open>
  In every state that the controller reaches, a truthy \<open>rafScroll\<close> has its callback
  pending, and the only pending timeout, if any, is the one whose handle is in
  \<open>clickTimeout\<close>. \<open>in_window\<close> is the state between a click on \<open>item\<close> at time \<open>t0\<close>
  and the end of the window that the click opens: the flag is set, the timeout of the click
  is pending and due at \<open>t0 + 800\<close>, and of the navigation items the clicked one alone is
  active.
\<close>

definition nav_wf :: "BarraNavegacion \<times> page \<Rightarrow> bool" where
  "nav_wf s =
     ((\<not> truthy (rafScroll (fst s)) \<or> frames (snd s) \<noteq> []) \<and>
      list_all (\<lambda>tm. clickTimeout (fst s) = Some (fst tm) \<and> fst tm \<noteq> 0) (timers (snd s)))"

definition in_window ::
  "nat \<Rightarrow> rat \<Rightarrow> ref list \<Rightarrow> ref \<Rightarrow> BarraNavegacion \<times> page \<Rightarrow> bool" where
  "in_window h t0 items item s =
     (permiteClickReciente (fst s) \<and> navItems (fst s) = Some items \<and>
      timers (snd s) = [(h, t0 + 800)] \<and>
      (\<not> truthy (rafScroll (fst s)) \<or> frames (snd s) \<noteq> []) \<and>
      list_all (\<lambda>r. has_class (snd s) r ''item--active'' = (r = item)) items)"

section \<open>An example page\<close>

text \<open>
  A page with a body (0), the header (1), the burger button (2), the navigation list (3),
  three navigation items (4 to 6), the language button (7), the language list (8), two
  language items (9, 10) and three elements to reveal on scroll (11 to 13). An element
  without inline opacity is given the initial value 1.
\<close>

definition blank :: element where
  "blank = \<lparr>classList = [], attributes = Map.empty, opacity = 1, willChange = [], top = 0,
            listeners = [], navClickHandler = None, langClickHandler = None\<rparr>"

definition example_query :: "string \<Rightarrow> ref list" where
  "example_query sel =
     (if sel = ''body'' then [0]
      else if sel = ''.header'' then [1]
      else if sel = ''.header__nav-burguer'' then [2]
      else if sel = ''.header__nav-list'' then [3]
      else if sel = ''.header__nav-item'' then [4, 5, 6]
      else if sel = ''.header__nav-langmenu'' then [7]
      else if sel = ''.header__nav-langlist'' then [8]
      else if sel = ''.header__nav-langitem'' then [9, 10]
      else if sel = ''.js-scroll'' then [11, 12, 13]
      else [])"

definition example_page :: page where
  "example_page =
     \<lparr>elems = (\<lambda>r. blank), query = example_query, docListeners = [], winListeners = [],
      timers = [], frames = [], lastHandle = 0, clock = 0, innerHeight = 800,
      clientHeight = 800, reducedMotion = False, hasIntersectionObserver = True,
      readyState = ''complete'', cleanupRuns = 0\<rparr>"


text \<open>
  For the scroll reveal: with a viewport of 800 px the "in view" bound is 640 px. Element 11
  has its top at 639 px, element 12 at 700 px (between the two bounds, and already
  revealed), element 13 at 801 px (below the viewport, and revealed). One example takes the
  polling path, the other the observation path. In \<open>rounded_example\<close> the viewport is
  767 px high and every element has its top at the double nearest to \<open>767 / 1.25\<close>, which
  is above the exact quotient 613.6; \<open>reveal_11\<close> notifies that element 11
  intersects, \<open>later_batches\<close> are two later notifications that report it as not
  intersecting.
\<close>

definition scroll_page :: page where
  "scroll_page =
     example_page
       \<lparr>elems := (\<lambda>r. if r = 11 then blank\<lparr>top := 639\<rparr>
                     else if r = 12 then blank\<lparr>top := 700, classList := [''js-scroll'', ''scrolled'']\<rparr>
                     else if r = 13 then blank\<lparr>top := 801, classList := [''scrolled'']\<rparr>
                     else blank)\<rparr>"

definition rounded_example :: "AnimacionesScroll \<times> page" where
  "rounded_example =
     scroll_constructor ''.js-scroll'' ''scrolled'' True True
       (example_page
          \<lparr>elems := (\<lambda>r. blank\<lparr>top := 5397282678426829 / 8796093022208\<rparr>),
           innerHeight := 767, hasIntersectionObserver := False\<rparr>)"

definition polling_example :: "AnimacionesScroll \<times> page" where
  "polling_example =
     scroll_constructor ''.js-scroll'' ''scrolled'' True True
       (scroll_page\<lparr>hasIntersectionObserver := False\<rparr>)"

definition observing_example :: "AnimacionesScroll \<times> page" where
  "observing_example = scroll_constructor ''.js-scroll'' ''scrolled'' True True scroll_page"

definition reveal_11 :: entry where
  "reveal_11 = \<lparr>target = 11, isIntersecting = True\<rparr>"

definition later_batches :: "entry list list" where
  "later_batches =
     [[\<lparr>target = 11, isIntersecting = False\<rparr>],
      [\<lparr>target = 12, isIntersecting = True\<rparr>, \<lparr>target = 11, isIntersecting = False\<rparr>]]"

text \<open>
  For the navigation bar: the controller constructed with the default options on the
  example page; a page on which two navigation items are active; a page on which the
  language menu has been opened.
\<close>

definition example_refs :: "ref list" where
  "example_refs = [0, 1, 2, 3, 4, 5, 6, 7, 8, 9, 10, 11, 12, 13]"

definition nav_example :: "BarraNavegacion \<times> page" where
  "nav_example = projr (nav_constructor default_options example_page)"

definition two_active :: page where
  "two_active = add_class ''item--active'' 4 (add_class ''item--active'' 6 (snd nav_example))"

definition lang_open :: page where
  "lang_open = snd (onLangMenuClick nav_example)"

section \<open>Properties of the fade\<close>

lemma progress_lt_1: "(progress d x < 1) = (x < max 1 d)"
  by (simp add: progress_def min_less_iff_disj pos_divide_less_eq)

lemma step_running:
  assumes "element f = Some r" "startTime f = Some s" "s \<noteq> 0" "ts - s < max 1 (duration f)"
  shows "step ts (f, p) =
           Inr (f\<lparr>rafId := Some (Suc (lastHandle p))\<rparr>,
                (update_element r (\<lambda>e. e\<lparr>opacity := progress (duration f) (ts - s)\<rparr>) p)
                  \<lparr>frames := frames p @ [Suc (lastHandle p)], lastHandle := Suc (lastHandle p)\<rparr>)"
  using assms
  by (simp add: step_def Let_def progress_lt_1 requestAnimationFrame_def update_element_def)

lemma step_settle:
  assumes "element f = Some r" "startTime f = Some s" "s \<noteq> 0" "max 1 (duration f) \<le> ts - s"
  shows "step ts (f, p) =
           Inr (f, cleanupStyle f (update_element r (\<lambda>e. e\<lparr>opacity := progress (duration f) (ts - s)\<rparr>) p))"
proof -
  have "\<not> progress (duration f) (ts - s) < 1"
    using assms(4) by (simp only: progress_lt_1 not_less)
  then show ?thesis using assms(1-3)
    by (simp add: step_def Let_def)
qed

lemma step_first:
  assumes "element f = Some r" "startTime f = None"
  shows "step ts (f, p) =
           Inr (f\<lparr>startTime := Some ts, rafId := Some (Suc (lastHandle p))\<rparr>,
                (update_element r (\<lambda>e. e\<lparr>opacity := 0\<rparr>) p)
                  \<lparr>frames := frames p @ [Suc (lastHandle p)], lastHandle := Suc (lastHandle p)\<rparr>)"
  using assms
  by (simp add: step_def Let_def progress_def requestAnimationFrame_def update_element_def)

lemma frame_running:
  assumes "animating r s d c st" "s \<noteq> 0" "ts - s < max 1 d"
  shows "\<exists>st'. fade_frame ts st = Inr st' \<and> animating r s d c st'"
proof -
  obtain f p where st: "st = (f, p)" by (cases st)
  from assms(1) obtain h where h: "frames p = [h]"
    by (cases "frames p") (auto simp: animating_def st)
  show ?thesis using assms h
    by (simp add: st fade_frame_def animating_def step_running update_element_def)
qed

lemma frame_settle:
  assumes "animating r s d c st" "s \<noteq> 0" "max 1 d \<le> ts - s"
  shows "\<exists>f' p'. fade_frame ts st = Inr (f', p') \<and> frames p' = [] \<and> cleanupRuns p' = Suc c \<and>
           opacity (elems p' r) = 1 \<and> willChange (elems p' r) = []"
proof -
  obtain f p where st: "st = (f, p)" by (cases st)
  from assms(1) obtain h where h: "frames p = [h]"
    by (cases "frames p") (auto simp: animating_def st)
  show ?thesis using assms h
    by (simp add: st fade_frame_def animating_def step_settle update_element_def cleanupStyle_def)
qed

lemma frame_idle: "frames (snd st) = [] \<Longrightarrow> fade_frame t st = Inr st"
proof -
  assume a: "frames (snd st) = []"
  obtain f p where st: "st = (f, p)" by (cases st)
  have "p\<lparr>frames := []\<rparr> = p" using a by (cases p) (simp add: st)
  then show ?thesis using a by (simp add: fade_frame_def st)
qed

lemma run_idle: "frames (snd st) = [] \<Longrightarrow> fade_run ts st = Inr st"
  by (induction ts) (simp_all add: frame_idle)

lemma run_running:
  assumes "animating r s d c st" "s \<noteq> 0" "\<forall>t \<in> set ts. t - s < max 1 d"
  shows "\<exists>st'. fade_run ts st = Inr st' \<and> animating r s d c st'"
  using assms
proof (induction ts arbitrary: st)
  case Nil
  then show ?case by simp
next
  case (Cons t ts)
  from frame_running[OF Cons.prems(1,2), of t] Cons.prems(3)
  obtain st1 where 1: "fade_frame t st = Inr st1" "animating r s d c st1" by auto
  from Cons.IH[OF 1(2) Cons.prems(2)] Cons.prems(3)
  show ?case by (simp add: 1)
qed

lemma fade_run_append:
  "fade_run (ts @ us) st = (case fade_run ts st of Inl e \<Rightarrow> Inl e | Inr st' \<Rightarrow> fade_run us st')"
  by (induction ts arbitrary: st) (auto split: sum.splits)

lemma start_found:
  assumes "query p (selector f) = r # rs"
  shows "start f p =
           (f\<lparr>element := Some r, startTime := None, rafId := Some (Suc (lastHandle p))\<rparr>,
            (update_element r (\<lambda>e. e\<lparr>opacity := 0, willChange := ''opacity''\<rparr>) p)
               \<lparr>frames := frames p @ [Suc (lastHandle p)], lastHandle := Suc (lastHandle p)\<rparr>)"
  using assms
  by (simp add: start_def findElement_def Let_def requestAnimationFrame_def update_element_def)

lemma first_frame:
  assumes "query p (selector f) = r # rs" "frames p = []"
  shows "\<exists>st'. fade_frame t0 (start f p) = Inr st' \<and> animating r t0 (duration f) (cleanupRuns p) st' \<and>
           opacity (elems (snd st') r) = 0"
  using assms
  by (simp add: start_found fade_frame_def step_first animating_def update_element_def)

lemma fade_settles:
  assumes q: "query p (selector f) = r # rs" and fr: "frames p = []"
    and t0: "t0 \<noteq> 0"
    and mid: "\<forall>t \<in> set ts. t - t0 < max 1 (duration f)"
    and fin: "max 1 (duration f) \<le> t - t0"
  shows "\<exists>f' p'. fade_run (t0 # ts @ t # rest) (start f p) = Inr (f', p') \<and> frames p' = [] \<and>
           cleanupRuns p' = Suc (cleanupRuns p) \<and>
           opacity (elems p' r) = 1 \<and> willChange (elems p' r) = []"
proof -
  from first_frame[OF q fr, of t0] obtain st1 where
    1: "fade_frame t0 (start f p) = Inr st1" "animating r t0 (duration f) (cleanupRuns p) st1" by blast
  from run_running[OF 1(2) t0 mid] obtain st2 where
    2: "fade_run ts st1 = Inr st2" "animating r t0 (duration f) (cleanupRuns p) st2" by blast
  from frame_settle[OF 2(2) t0 fin] obtain f' p' where
    3: "fade_frame t st2 = Inr (f', p')" "frames p' = []" "cleanupRuns p' = Suc (cleanupRuns p)"
       "opacity (elems p' r) = 1" "willChange (elems p' r) = []" by blast
  have "fade_run rest (f', p') = Inr (f', p')" using 3(2) by (simp add: run_idle)
  then show ?thesis using 1 2 3 by (simp add: fade_run_append)
qed

lemma first_frame_fading:
  assumes "query p (selector f) = r # rs" "frames p = []"
  shows "\<exists>st'. fade_frame t0 (start f p) = Inr st' \<and>
           animating r t0 (duration f) (cleanupRuns p) st' \<and> fading r st'"
  using assms
  by (simp add: start_found fade_frame_def step_first animating_def fading_def
      update_element_def)

lemma frame_running_fading:
  assumes "animating r s d c st" "fading r st" "s \<noteq> 0" "ts - s < max 1 d"
  shows "\<exists>st'. fade_frame ts st = Inr st' \<and> animating r s d c st' \<and> fading r st'"
proof -
  obtain f p where st: "st = (f, p)" by (cases st)
  from assms(1) obtain h where h: "frames p = [h]"
    by (cases "frames p") (auto simp: animating_def st)
  have "progress d (ts - s) < 1" using assms(4) by (simp add: progress_lt_1)
  then show ?thesis using assms h
    by (simp add: st fade_frame_def animating_def fading_def step_running update_element_def)
qed

lemma run_running_fading:
  assumes "animating r s d c st" "fading r st" "s \<noteq> 0" "\<forall>t \<in> set ts. t - s < max 1 d"
  shows "\<exists>st'. fade_run ts st = Inr st' \<and> animating r s d c st' \<and> fading r st'"
  using assms
proof (induction ts arbitrary: st)
  case Nil
  then show ?case by simp
next
  case (Cons t ts)
  from frame_running_fading[OF Cons.prems(1,2,3), of t] Cons.prems(4)
  obtain st1 where 1: "fade_frame t st = Inr st1" "animating r s d c st1" "fading r st1"
    by auto
  from Cons.IH[OF 1(2,3) Cons.prems(3)] Cons.prems(4)
  show ?case by (simp add: 1)
qed

lemma fade_unsettled:
  assumes q: "query p (selector f) = r # rs" and fr: "frames p = []"
    and t0: "t0 \<noteq> 0"
    and mid: "\<forall>t \<in> set ts. t - t0 < max 1 (duration f)"
  shows "\<exists>f' p'. fade_run (t0 # ts) (start f p) = Inr (f', p') \<and> frames p' \<noteq> [] \<and>
           cleanupRuns p' = cleanupRuns p \<and>
           opacity (elems p' r) < 1 \<and> willChange (elems p' r) = ''opacity''"
proof -
  from first_frame_fading[OF q fr, of t0] obtain st1 where
    1: "fade_frame t0 (start f p) = Inr st1" "animating r t0 (duration f) (cleanupRuns p) st1"
       "fading r st1" by blast
  from run_running_fading[OF 1(2,3) t0 mid] obtain st2 where
    2: "fade_run ts st1 = Inr st2" "animating r t0 (duration f) (cleanupRuns p) st2"
       "fading r st2" by blast
  obtain f' p' where st2: "st2 = (f', p')" by (cases st2)
  have "frames p' \<noteq> []" "cleanupRuns p' = cleanupRuns p" "opacity (elems p' r) < 1"
    "willChange (elems p' r) = ''opacity''"
    using 2(2,3) by (auto simp: animating_def fading_def st2)
  then show ?thesis using 1(1) 2(1) by (simp add: st2)
qed

lemma start_duration: "duration (fst (start f p)) = duration f"
  by (simp add: start_def Let_def split: option.splits)

lemma constructor_starts:
  assumes "\<not> reducedMotion p" "readyState p \<noteq> ''loading''"
  shows "fade_constructor sel d True p =
           start \<lparr>selector = sel, duration = max 0 d, rafId = None, startTime = None,
                  element = None\<rparr> p"
  using assms by (simp add: fade_constructor_def fade_init_def)


text \<open>
  Claim C4 says that a duration \<open>\<le> 0\<close> settles on the first frame. It does not: the first
  frame only records the start time, so that the elapsed time is 0 and the progress 0; with
  duration 0 on the example page the first frame at 16 ms leaves opacity 0, no cleanup and
  the callback with handle 2 pending.
\<close>

theorem fade_first_frame_counterexample:
  "fade_observe 0 (fade_run [16] (fade_constructor ''body'' 0 True example_page))
     = Some (0, ''opacity'', 0, [2])"
  by (simp add: fade_observe_def fade_constructor_def fade_init_def start_def step_def
      fade_frame_def example_page_def example_query_def findElement_def Let_def
      requestAnimationFrame_def update_element_def progress_def blank_def)

text \<open>
  Claim C4 as amended: a duration \<open>\<le> 0\<close> is clamped to 0; the first frame sets opacity 0
  and schedules another frame without cleanup; after the first frame at \<open>t1\<close> and any frames
  less than 1 ms after it the fade is not settled (opacity below 1, \<open>willChange\<close> still set,
  no cleanup, a frame pending); the fade settles (opacity 1, \<open>willChange\<close> cleared, one
  cleanup, no frame pending) on the first frame that is at least 1 ms after the first one,
  whatever frames follow. The part on the unsettled frames takes \<open>t1\<close> at 1 ms or later,
  where the difference of the two timestamps is a double and the exact elapsed time is the
  one that the code computes.
\<close>

theorem fade_nonpositive_duration:
  assumes "d \<le> 0" "\<not> reducedMotion p" "readyState p \<noteq> ''loading''"
    and "query p sel = r # rs" "frames p = []"
  shows "duration (fst (fade_constructor sel d True p)) = 0 \<and>
         (\<exists>f1 p1. fade_run [t1] (fade_constructor sel d True p) = Inr (f1, p1) \<and>
            opacity (elems p1 r) = 0 \<and> frames p1 \<noteq> [] \<and> cleanupRuns p1 = cleanupRuns p) \<and>
         (1 \<le> t1 \<and> (\<forall>t \<in> set ts. t - t1 < 1) \<longrightarrow>
           (\<exists>f3 p3. fade_run (t1 # ts) (fade_constructor sel d True p) = Inr (f3, p3) \<and>
              opacity (elems p3 r) < 1 \<and> willChange (elems p3 r) = ''opacity'' \<and>
              cleanupRuns p3 = cleanupRuns p \<and> frames p3 \<noteq> [])) \<and>
         (t1 \<noteq> 0 \<and> (\<forall>t \<in> set ts. t - t1 < 1) \<and> 1 \<le> t2 - t1 \<longrightarrow>
           (\<exists>f2 p2. fade_run (t1 # ts @ t2 # rest) (fade_constructor sel d True p) = Inr (f2, p2) \<and>
              opacity (elems p2 r) = 1 \<and> willChange (elems p2 r) = [] \<and>
              cleanupRuns p2 = Suc (cleanupRuns p) \<and> frames p2 = []))"
proof -
  let ?f = "\<lparr>selector = sel, duration = max 0 d, rafId = None, startTime = None,
             element = None\<rparr>"
  have c: "fade_constructor sel d True p = start ?f p"
    using assms(2,3) by (rule constructor_starts)
  have q: "query p (selector ?f) = r # rs" using assms(4) by simp
  have d0: "duration ?f = 0" using assms(1) by simp
  have D: "\<exists>f3 p3. fade_run (t1 # ts) (fade_constructor sel d True p) = Inr (f3, p3) \<and>
              opacity (elems p3 r) < 1 \<and> willChange (elems p3 r) = ''opacity'' \<and>
              cleanupRuns p3 = cleanupRuns p \<and> frames p3 \<noteq> []"
    if h: "1 \<le> t1" "\<forall>t \<in> set ts. t - t1 < 1"
  proof -
    have z: "t1 \<noteq> 0" using h(1) by simp
    have m: "\<forall>t \<in> set ts. t - t1 < max 1 (duration ?f)" using h(2) d0 by simp
    from fade_unsettled[OF q assms(5) z m] show ?thesis
      unfolding c by blast
  qed
  have A: "duration (fst (fade_constructor sel d True p)) = 0"
    using assms(1) by (simp add: c start_duration)
  from first_frame[OF q assms(5), of t1] obtain st1 where
    1: "fade_frame t1 (start ?f p) = Inr st1" "animating r t1 (duration ?f) (cleanupRuns p) st1"
       "opacity (elems (snd st1) r) = 0" by blast
  have B: "\<exists>f1 p1. fade_run [t1] (fade_constructor sel d True p) = Inr (f1, p1) \<and>
            opacity (elems p1 r) = 0 \<and> frames p1 \<noteq> [] \<and> cleanupRuns p1 = cleanupRuns p"
  proof -
    obtain f1 p1 where st1: "st1 = (f1, p1)" by (cases st1)
    have "frames p1 \<noteq> []" "cleanupRuns p1 = cleanupRuns p" "opacity (elems p1 r) = 0"
      using 1(2,3) by (auto simp: animating_def st1)
    then show ?thesis using 1(1) by (simp add: c st1)
  qed
  have C: "\<exists>f2 p2. fade_run (t1 # ts @ t2 # rest) (fade_constructor sel d True p) = Inr (f2, p2) \<and>
              opacity (elems p2 r) = 1 \<and> willChange (elems p2 r) = [] \<and>
              cleanupRuns p2 = Suc (cleanupRuns p) \<and> frames p2 = []"
    if h: "t1 \<noteq> 0" "\<forall>t \<in> set ts. t - t1 < 1" "1 \<le> t2 - t1"
  proof -
    have m: "\<forall>t \<in> set ts. t - t1 < max 1 (duration ?f)" using h(2) d0 by simp
    have e: "max 1 (duration ?f) \<le> t2 - t1" using h(3) d0 by simp
    from fade_settles[OF q assms(5) h(1) m e, of rest] show ?thesis
      unfolding c by blast
  qed
  from A B C D show ?thesis by blast
qed

theorem fade_nonpositive_duration_witness:
  "(- 5 :: rat) \<le> 0 \<and> \<not> reducedMotion example_page \<and> readyState example_page \<noteq> ''loading'' \<and>
   query example_page ''body'' = [0] \<and> frames example_page = [] \<and>
   (1 :: rat) \<le> 16 \<and> (16 + 1 / 2 :: rat) - 16 < 1 \<and> (1 :: rat) \<le> 33 - 16 \<and>
   (\<exists>f3 p3. fade_run [16, 16 + 1 / 2] (fade_constructor ''body'' (- 5) True example_page)
        = Inr (f3, p3) \<and>
      opacity (elems p3 0) < 1 \<and> willChange (elems p3 0) = ''opacity'' \<and>
      cleanupRuns p3 = 0 \<and> frames p3 \<noteq> []) \<and>
   fade_observe 0 (fade_run [16, 16 + 1 / 2, 33, 50] (fade_constructor ''body'' (- 5) True example_page))
     = Some (1, [], 1, [])"
proof -
  have h: "(- 5 :: rat) \<le> 0" "\<not> reducedMotion example_page"
    "readyState example_page \<noteq> ''loading''" "query example_page ''body'' = 0 # []"
    "frames example_page = []"
    by (simp_all add: example_page_def example_query_def)
  have g: "(16::rat) \<noteq> 0 \<and> (\<forall>t \<in> set [16 + 1 / 2 :: rat]. t - 16 < 1) \<and> (1::rat) \<le> 33 - 16"
    by simp
  have g': "(1::rat) \<le> 16 \<and> (\<forall>t \<in> set [16 + 1 / 2 :: rat]. t - 16 < 1)"
    by simp
  have c0: "cleanupRuns example_page = 0" by (simp add: example_page_def)
  note t = fade_nonpositive_duration[OF h, of 16 "[16 + 1 / 2]" 33 "[50]"]
  from t g obtain f2 p2 where
    "fade_run (16 # [16 + 1 / 2] @ 33 # [50]) (fade_constructor ''body'' (- 5) True example_page)
       = Inr (f2, p2)"
    "opacity (elems p2 0) = 1" "willChange (elems p2 0) = []"
    "cleanupRuns p2 = Suc (cleanupRuns example_page)" "frames p2 = []"
    by blast
  then have a: "fade_observe 0 (fade_run [16, 16 + 1 / 2, 33, 50]
      (fade_constructor ''body'' (- 5) True example_page)) = Some (1, [], 1, [])"
    using c0 by (simp add: fade_observe_def)
  from t g' obtain f3 p3 where
    "fade_run (16 # [16 + 1 / 2]) (fade_constructor ''body'' (- 5) True example_page)
       = Inr (f3, p3)"
    "opacity (elems p3 0) < 1" "willChange (elems p3 0) = ''opacity''"
    "cleanupRuns p3 = cleanupRuns example_page" "frames p3 \<noteq> []"
    by blast
  then have b: "\<exists>f3 p3. fade_run [16, 16 + 1 / 2]
        (fade_constructor ''body'' (- 5) True example_page) = Inr (f3, p3) \<and>
      opacity (elems p3 0) < 1 \<and> willChange (elems p3 0) = ''opacity'' \<and>
      cleanupRuns p3 = 0 \<and> frames p3 \<noteq> []"
    using c0 by auto
  show ?thesis using h a b by simp
qed

text \<open>
  Claim C5 says that for every duration \<open>D > 0\<close> the step with elapsed time \<open>D\<close> has progress
  exactly 1. The divisor is \<open>max(1, D)\<close>, so for \<open>D = 1/2\<close> the progress at elapsed time
  \<open>1/2\<close> is \<open>1/2\<close>: the frame at \<open>16 + 1/2\<close> ms of a fade started at 16 ms leaves opacity
  \<open>1/2\<close>, no cleanup and another frame pending.
\<close>

theorem fade_short_duration_counterexample:
  "progress (1 / 2) (1 / 2) = 1 / 2 \<and>
   fade_observe 0 (fade_run [16, 16 + 1 / 2] (fade_constructor ''body'' (1 / 2) True example_page))
     = Some (1 / 2, ''opacity'', 0, [3])"
  by (simp add: fade_observe_def fade_constructor_def fade_init_def start_def step_def
      fade_frame_def example_page_def example_query_def findElement_def Let_def
      requestAnimationFrame_def update_element_def progress_def blank_def)

text \<open>
  Claim C5 as amended, for every duration \<open>D \<ge> 1\<close>: the progress at elapsed time \<open>D\<close> is exactly
  1, the progress that the code computes is \<open>clamp(0, 1, elapsed / max(1, D))\<close> for every
  elapsed time \<open>\<ge> 0\<close>, and over a run whose first frame is at \<open>t0\<close>, whose next frames are
  earlier than \<open>t0 + D\<close>, and which then has a frame at \<open>t0 + D\<close>, the cleanup runs exactly once
  (\<open>willChange\<close> cleared, opacity 1), whatever frames follow, and no frame is left pending.
\<close>

theorem fade_elapsed_duration:
  assumes "1 \<le> D" "\<not> reducedMotion p" "readyState p \<noteq> ''loading''"
    and "query p sel = r # rs" "frames p = []"
  shows "progress D D = 1 \<and>
         (\<forall>e. 0 \<le> e \<longrightarrow> progress D e = max 0 (min 1 (e / max 1 D))) \<and>
         (t0 \<noteq> 0 \<and> (\<forall>t \<in> set ts. t - t0 < D) \<longrightarrow>
           (\<exists>f' p'. fade_run (t0 # ts @ (t0 + D) # rest) (fade_constructor sel D True p)
                        = Inr (f', p') \<and>
              opacity (elems p' r) = 1 \<and> willChange (elems p' r) = [] \<and>
              cleanupRuns p' = Suc (cleanupRuns p) \<and> frames p' = []))"
proof -
  let ?f = "\<lparr>selector = sel, duration = max 0 D, rafId = None, startTime = None,
             element = None\<rparr>"
  have c: "fade_constructor sel D True p = start ?f p"
    using assms(2,3) by (rule constructor_starts)
  have q: "query p (selector ?f) = r # rs" using assms(4) by simp
  have d: "max 1 (duration ?f) = D" using assms(1) by simp
  have A: "progress D D = 1" using assms(1) by (simp add: progress_def)
  have B: "progress D e = max 0 (min 1 (e / max 1 D))" if "0 \<le> e" for e
    using that assms(1) by (simp add: progress_def)
  have C: "\<exists>f' p'. fade_run (t0 # ts @ (t0 + D) # rest) (fade_constructor sel D True p)
                        = Inr (f', p') \<and>
              opacity (elems p' r) = 1 \<and> willChange (elems p' r) = [] \<and>
              cleanupRuns p' = Suc (cleanupRuns p) \<and> frames p' = []"
    if h: "t0 \<noteq> 0" "\<forall>t \<in> set ts. t - t0 < D"
  proof -
    have m: "\<forall>t \<in> set ts. t - t0 < max 1 (duration ?f)" using h(2) by (simp only: d)
    have e: "max 1 (duration ?f) \<le> (t0 + D) - t0" by (simp only: d add_diff_cancel_left' order_refl)
    from fade_settles[OF q assms(5) h(1) m e, of rest] show ?thesis
      unfolding c by blast
  qed
  from A B C show ?thesis by blast
qed

theorem fade_elapsed_duration_witness:
  "(1 :: rat) \<le> 500 \<and> \<not> reducedMotion example_page \<and> readyState example_page \<noteq> ''loading'' \<and>
   query example_page ''body'' = [0] \<and> frames example_page = [] \<and>
   progress 500 500 = 1 \<and>
   fade_observe 0 (fade_run [16, 33, 266, 516, 533]
       (fade_constructor ''body'' 500 True example_page))
     = Some (1, [], 1, [])"
proof -
  have h: "(1 :: rat) \<le> 500" "\<not> reducedMotion example_page"
    "readyState example_page \<noteq> ''loading''" "query example_page ''body'' = 0 # []"
    "frames example_page = []"
    by (simp_all add: example_page_def example_query_def)
  have g: "(16::rat) \<noteq> 0 \<and> (\<forall>t \<in> set [33, 266 :: rat]. t - 16 < 500)"
    by simp
  note t = fade_elapsed_duration[OF h, of 16 "[33, 266]" "[533]"]
  from t g obtain f2 p2 where
    "fade_run (16 # [33, 266] @ (16 + 500) # [533])
       (fade_constructor ''body'' 500 True example_page) = Inr (f2, p2)"
    "opacity (elems p2 0) = 1" "willChange (elems p2 0) = []"
    "cleanupRuns p2 = Suc (cleanupRuns example_page)" "frames p2 = []"
    by blast
  moreover have "cleanupRuns example_page = 0" by (simp add: example_page_def)
  ultimately have "fade_observe 0 (fade_run [16, 33, 266, 516, 533]
      (fade_constructor ''body'' 500 True example_page)) = Some (1, [], 1, [])"
    by (simp add: fade_observe_def)
  then show ?thesis using h t by simp
qed

section \<open>Properties of the scroll reveal\<close>

lemma pow2_pos: "0 < pow2 e"
  by (simp add: pow2_def)

lemma pow2_diff: "pow2 (e - int k) = pow2 e / 2 ^ k"
proof -
  have "pow2 e = 2 powi e" for e :: int
  proof (cases "0 \<le> e")
    case True
    then show ?thesis by (simp add: pow2_def power_int_def)
  next
    case False
    then have "(2::rat) powi e = inverse 2 ^ nat (- e)" by (simp add: power_int_def)
    also have "\<dots> = inverse (2 ^ nat (- e))" by (rule power_inverse)
    also have "\<dots> = 1 / 2 ^ nat (- e)" by (rule inverse_eq_divide)
    finally show ?thesis using False by (simp add: pow2_def)
  qed
  then have "pow2 (e - int k) = 2 powi (e - int k)" "pow2 e = 2 powi e" by blast+
  moreover have "(2::rat) powi (e - int k) = 2 powi e / 2 powi int k"
    by (rule power_int_diff) simp
  ultimately show ?thesis by simp
qed

lemma pow2_neg_small:
  assumes "e \<le> - 4"
  shows "pow2 e \<le> 1 / 16"
proof -
  have "4 \<le> nat (- e)" using assms by simp
  then have "(2::rat) ^ 4 \<le> 2 ^ nat (- e)" by (intro power_increasing) simp_all
  then have "1 / 2 ^ nat (- e) \<le> 1 / (2::rat) ^ 4"
    by (intro divide_left_mono) simp_all
  then show ?thesis using assms by (simp add: pow2_def)
qed

lemma round_half_even_le: "of_int (round_half_even x) \<le> x + 1 / 2"
proof -
  have f: "of_int \<lfloor>x\<rfloor> \<le> x" by simp
  consider "x - of_int \<lfloor>x\<rfloor> < 1 / 2" | "1 / 2 \<le> x - of_int \<lfloor>x\<rfloor>" by linarith
  then show ?thesis
  proof cases
    case 1
    then have "round_half_even x = \<lfloor>x\<rfloor>" by (simp add: round_half_even_def Let_def)
    then show ?thesis using f by linarith
  next
    case 2
    then have "round_half_even x \<le> \<lfloor>x\<rfloor> + 1" by (simp add: round_half_even_def Let_def)
    then have "(of_int (round_half_even x) :: rat) \<le> of_int (\<lfloor>x\<rfloor> + 1)"
      by (simp only: of_int_le_iff)
    then show ?thesis using 2 by simp
  qed
qed

lemma pow2_double_exponent:
  assumes "0 < q"
  shows "pow2 (double_exponent q) \<le> q"
proof (cases "1 \<le> q")
  case True
  then have f: "0 < \<lfloor>q\<rfloor>" by simp
  have b: "1 \<le> bitlen \<lfloor>q\<rfloor>" using f by (simp add: bitlen_alt_def)
  from bitlen_bounds[OF f] have "(2::int) ^ nat (bitlen \<lfloor>q\<rfloor> - 1) \<le> \<lfloor>q\<rfloor>" by simp
  then have "of_int ((2::int) ^ nat (bitlen \<lfloor>q\<rfloor> - 1)) \<le> (of_int \<lfloor>q\<rfloor> :: rat)"
    by (simp only: of_int_le_iff)
  also have "\<dots> \<le> q" by simp
  finally show ?thesis using True b assms by (simp add: double_exponent_def pow2_def)
next
  case False
  then have q1: "q < 1" by simp
  let ?m = "\<lceil>1 / q\<rceil> - 1"
  have "1 < 1 / q" using assms q1 by simp
  then have "1 < \<lceil>1 / q\<rceil>" by (simp add: less_ceiling_iff)
  then have m: "0 < ?m" by simp
  have k: "1 \<le> bitlen ?m" using m by (simp add: bitlen_alt_def)
  from bitlen_bounds[OF m] have "?m < 2 ^ nat (bitlen ?m)" by simp
  then have "\<lceil>1 / q\<rceil> \<le> 2 ^ nat (bitlen ?m)" by simp
  then have "(of_int \<lceil>1 / q\<rceil> :: rat) \<le> of_int (2 ^ nat (bitlen ?m))"
    by (simp only: of_int_le_iff)
  moreover have "1 / q \<le> of_int \<lceil>1 / q\<rceil>" by (rule le_of_int_ceiling)
  ultimately have "1 / q \<le> of_int (2 ^ nat (bitlen ?m))" by (rule order_trans[rotated])
  then have "1 / q \<le> 2 ^ nat (bitlen ?m)" by simp
  then have "1 / 2 ^ nat (bitlen ?m) \<le> q"
    using assms by (simp add: field_simps)
  then show ?thesis using q1 assms k by (simp add: double_exponent_def pow2_def)
qed

lemma to_double_bound:
  assumes "4 / 5 \<le> q"
  shows "to_double q < q * (5 / 4)"
proof -
  have q0: "0 < q" using assms by simp
  define s where "s = max (double_exponent q - 52) (- 1074)"
  have e: "pow2 (double_exponent q - 52) \<le> q / 2 ^ 52"
    using pow2_diff[of "double_exponent q" 52] pow2_double_exponent[OF q0]
    by (simp add: divide_right_mono)
  have "q / 2 ^ 52 < q / 8" using q0 by simp
  then have e1: "pow2 (double_exponent q - 52) < q / 8" using e by simp
  have "pow2 (- 1074) \<le> 1 / 16" by (rule pow2_neg_small) simp
  also have "\<dots> < q / 8" using assms by simp
  finally have e2: "pow2 (- 1074) < q / 8" .
  have ps: "pow2 s < q / 8" using e1 e2 by (simp add: s_def max_def)
  have "to_double q = of_int (round_half_even (q / pow2 s)) * pow2 s"
    using q0 by (simp add: to_double_def s_def Let_def)
  also have "\<dots> \<le> (q / pow2 s + 1 / 2) * pow2 s"
    using round_half_even_le[of "q / pow2 s"] pow2_pos[of s] by (simp add: mult_right_mono)
  also have "\<dots> = q + pow2 s / 2" using pow2_pos[of s] by (simp add: field_simps)
  also have "\<dots> < q * (5 / 4)" using ps pow2_pos[of s] by linarith
  finally show ?thesis .
qed

lemma double_div_viewport:
  assumes "0 < (vh :: int)"
  shows "double_div (of_int vh) (5 / 4) < of_int vh"
proof -
  have "1 \<le> (of_int vh :: rat)" using assms by simp
  then have "4 / 5 \<le> (of_int vh :: rat) / (5 / 4)" by simp
  from to_double_bound[OF this] show ?thesis by (simp add: double_div_def)
qed

lemma pow2_Suc: "pow2 (e + 1) = 2 * pow2 e"
proof -
  have "pow2 ((e + 1) - int 1) = pow2 (e + 1) / 2 ^ 1" by (rule pow2_diff)
  then show ?thesis by simp
qed

lemma double_exponent_upper:
  assumes "0 < q"
  shows "q < pow2 (double_exponent q + 1)"
proof (cases "1 \<le> q")
  case True
  then have f: "0 < \<lfloor>q\<rfloor>" by simp
  have b: "1 \<le> bitlen \<lfloor>q\<rfloor>" using f by (simp add: bitlen_alt_def)
  from bitlen_bounds[OF f] have "\<lfloor>q\<rfloor> + 1 \<le> 2 ^ nat (bitlen \<lfloor>q\<rfloor>)" by simp
  then have "(of_int (\<lfloor>q\<rfloor> + 1) :: rat) \<le> of_int (2 ^ nat (bitlen \<lfloor>q\<rfloor>))"
    by (simp only: of_int_le_iff)
  moreover have "q < of_int (\<lfloor>q\<rfloor> + 1)" by simp linarith
  ultimately have "q < of_int (2 ^ nat (bitlen \<lfloor>q\<rfloor>))" by (rule less_le_trans[rotated])
  then show ?thesis using True b assms by (simp add: double_exponent_def pow2_def)
next
  case False
  then have q1: "q < 1" by simp
  let ?m = "\<lceil>1 / q\<rceil> - 1"
  have "1 < 1 / q" using assms q1 by simp
  then have "1 < \<lceil>1 / q\<rceil>" by (simp add: less_ceiling_iff)
  then have m: "0 < ?m" by simp
  have k: "1 \<le> bitlen ?m" using m by (simp add: bitlen_alt_def)
  from bitlen_bounds[OF m] have "2 ^ nat (bitlen ?m - 1) \<le> ?m" by simp
  then have "(of_int (2 ^ nat (bitlen ?m - 1)) :: rat) \<le> of_int ?m"
    by (simp only: of_int_le_iff)
  moreover have "(of_int ?m :: rat) < 1 / q" by simp linarith
  ultimately have "of_int (2 ^ nat (bitlen ?m - 1)) < 1 / q" by (rule le_less_trans)
  then have "2 ^ nat (bitlen ?m - 1) < 1 / q" by simp
  then have u: "q < 1 / 2 ^ nat (bitlen ?m - 1)" using assms by (simp add: field_simps)
  show ?thesis
  proof (cases "bitlen ?m = 1")
    case True
    then show ?thesis using q1 assms by (simp add: double_exponent_def pow2_def)
  next
    case False
    then have "nat (bitlen ?m - 1) = nat (- (1 - bitlen ?m))" "\<not> 0 \<le> 1 - bitlen ?m"
      using k by simp_all
    then show ?thesis using u q1 assms by (simp add: double_exponent_def pow2_def)
  qed
qed

lemma round_half_even_ge: "x - 1 / 2 \<le> of_int (round_half_even x)"
proof -
  have f: "x < of_int \<lfloor>x\<rfloor> + 1" by linarith
  consider "x - of_int \<lfloor>x\<rfloor> < 1 / 2" | "x - of_int \<lfloor>x\<rfloor> = 1 / 2"
    | "1 / 2 < x - of_int \<lfloor>x\<rfloor>" by linarith
  then show ?thesis
  proof cases
    case 1
    then have "round_half_even x = \<lfloor>x\<rfloor>" by (simp add: round_half_even_def Let_def)
    then show ?thesis using 1 by simp
  next
    case 2
    have "\<lfloor>x\<rfloor> \<le> round_half_even x" by (simp add: round_half_even_def Let_def)
    then have "(of_int \<lfloor>x\<rfloor> :: rat) \<le> of_int (round_half_even x)"
      by (simp only: of_int_le_iff)
    then show ?thesis using 2 by linarith
  next
    case 3
    then have "round_half_even x = \<lfloor>x\<rfloor> + 1" by (simp add: round_half_even_def Let_def)
    then show ?thesis using f by simp
  qed
qed

lemma to_double_nearest:
  assumes "q \<noteq> 0"
  shows "\<bar>to_double q - q\<bar> \<le> pow2 (max (double_exponent q - 52) (- 1074)) / 2"
proof -
  define s where "s = max (double_exponent q - 52) (- 1074)"
  have p: "0 < pow2 s" by (rule pow2_pos)
  have t: "to_double q = of_int (round_half_even (q / pow2 s)) * pow2 s"
    using assms by (simp add: to_double_def s_def Let_def)
  have "(q / pow2 s - 1 / 2) * pow2 s \<le> to_double q"
    unfolding t using round_half_even_ge[of "q / pow2 s"] p by (simp add: mult_right_mono)
  moreover have "to_double q \<le> (q / pow2 s + 1 / 2) * pow2 s"
    unfolding t using round_half_even_le[of "q / pow2 s"] p by (simp add: mult_right_mono)
  moreover have "(q / pow2 s - 1 / 2) * pow2 s = q - pow2 s / 2"
    "(q / pow2 s + 1 / 2) * pow2 s = q + pow2 s / 2"
    using p by (simp_all add: field_simps)
  ultimately show ?thesis unfolding s_def[symmetric] by linarith
qed

lemma double_div_800: "double_div 800 (5 / 4) = 640"
  by code_simp

lemma double_div_767: "double_div 767 (5 / 4) = 5397282678426829 / 8796093022208"
  by code_simp

lemma elems_update_element:
  "elems (update_element r g p) x = (if x = r then g (elems p r) else elems p x)"
  by (simp add: update_element_def)

lemma viewportHeight_update_element [simp]:
  "viewportHeight (update_element r g p) = viewportHeight p"
  by (simp add: update_element_def viewportHeight_def)

lemma top_add_class [simp]: "top (elems (add_class c r p) x) = top (elems p x)"
  by (simp add: add_class_def elems_update_element)

lemma top_remove_class [simp]: "top (elems (remove_class c r p) x) = top (elems p x)"
  by (simp add: remove_class_def elems_update_element)

lemma classList_add_class:
  "classList (elems (add_class c r p) x) =
     (if x = r then classList_add (classList (elems p r)) c else classList (elems p x))"
  by (simp add: add_class_def elems_update_element)

lemma classList_remove_class:
  "classList (elems (remove_class c r p) x) =
     (if x = r then classList_remove (classList (elems p r)) c else classList (elems p x))"
  by (simp add: remove_class_def elems_update_element)

lemma classList_add_idem: "classList_add (classList_add cl c) c = classList_add cl c"
  by (simp add: classList_add_def)

lemma classList_remove_idem: "classList_remove (classList_remove cl c) c = classList_remove cl c"
  by (simp add: classList_remove_def)

lemma set_classList_add: "set (classList_add cl c) = insert c (set cl)"
  by (auto simp: classList_add_def)

lemma set_classList_remove: "set (classList_remove cl c) = set cl - {c}"
  by (auto simp: classList_remove_def)

lemma evaluate_element_top [simp]:
  "top (elems (evaluate_element a el p) x) = top (elems p x)"
  by (simp add: evaluate_element_def displayScrollElement_def hideScrollElement_def)

lemma evaluate_element_vh [simp]:
  "viewportHeight (evaluate_element a el p) = viewportHeight p"
  by (simp add: evaluate_element_def displayScrollElement_def hideScrollElement_def
      add_class_def remove_class_def)

lemma evaluate_element_tests [simp]:
  "elementInView (evaluate_element a el p) x off = elementInView p x off"
  "elementOutOfView (evaluate_element a el p) x = elementOutOfView p x"
  by (simp_all add: elementInView_def elementOutOfView_def)

lemma evaluate_element_classList:
  "classList (elems (evaluate_element a el p) x) =
     (if x = el then evaluated a p el else classList (elems p x))"
  by (simp add: evaluate_element_def displayScrollElement_def hideScrollElement_def
      evaluated_def classList_add_class classList_remove_class)

lemma evaluated_evaluate_element:
  "evaluated a (evaluate_element a el p) x = evaluated a p x"
  by (simp add: evaluated_def evaluate_element_classList classList_add_idem
      classList_remove_idem)

lemma fold_evaluate_classList:
  "classList (elems (fold (evaluate_element a) els p) x) =
     (if x \<in> set els then evaluated a p x else classList (elems p x))"
proof (induction els arbitrary: p)
  case Nil
  then show ?case by simp
next
  case (Cons el els)
  show ?case
    by (simp add: Cons.IH evaluated_evaluate_element evaluate_element_classList)
qed

lemma polling_example_eval:
  "elementos (fst polling_example) = [11, 12, 13]"
  "claseActiva (fst polling_example) = ''scrolled''"
  "viewportHeight (snd polling_example) = 800"
  "elems (snd polling_example) 11 = blank\<lparr>top := 639\<rparr>"
  "elems (snd polling_example) 12 = blank\<lparr>top := 700, classList := [''js-scroll'', ''scrolled'']\<rparr>"
  "elems (snd polling_example) 13 = blank\<lparr>top := 801, classList := [''scrolled'']\<rparr>"
  by (simp_all add: polling_example_def scroll_constructor_def scroll_init_def scroll_page_def
      example_page_def example_query_def findElements_def setupFallback_def handleScroll_def
      truthy_def requestAnimationFrame_def viewportHeight_def Let_def)

lemma rounded_example_eval:
  "elementos (fst rounded_example) = [11, 12, 13]"
  "claseActiva (fst rounded_example) = ''scrolled''"
  "viewportHeight (snd rounded_example) = 767"
  "elems (snd rounded_example) 11 = blank\<lparr>top := 5397282678426829 / 8796093022208\<rparr>"
  by (simp_all add: rounded_example_def scroll_constructor_def scroll_init_def
      example_page_def example_query_def findElements_def setupFallback_def handleScroll_def
      truthy_def requestAnimationFrame_def viewportHeight_def Let_def)

text \<open>
  Claim C1: in an evaluation pass of the polling strategy, for every tracked element: if
  its top is at most \<open>viewportHeight / 1.25\<close>, the quotient being the one that the division of
  doubles gives, the active class is added and nothing else in the class list changes; else,
  if its top is greater than \<open>viewportHeight\<close>, the active class is removed and nothing else
  changes; else the class list is unchanged. The two tests are not complements: for a positive
  viewport height the first bound is below the second.
\<close>

theorem polling_pass:
  assumes "el \<in> set (elementos a)"
  shows "(top (elems p el) \<le> double_div (of_int (viewportHeight p)) (5 / 4) \<longrightarrow>
            classList (elems (snd (evaluation_pass (a, p))) el)
              = classList_add (classList (elems p el)) (claseActiva a) \<and>
            classList_contains (classList (elems (snd (evaluation_pass (a, p))) el)) (claseActiva a)) \<and>
         (\<not> top (elems p el) \<le> double_div (of_int (viewportHeight p)) (5 / 4) \<and>
          top (elems p el) > of_int (viewportHeight p) \<longrightarrow>
            classList (elems (snd (evaluation_pass (a, p))) el)
              = classList_remove (classList (elems p el)) (claseActiva a) \<and>
            \<not> classList_contains (classList (elems (snd (evaluation_pass (a, p))) el)) (claseActiva a)) \<and>
         (\<not> top (elems p el) \<le> double_div (of_int (viewportHeight p)) (5 / 4) \<and>
          \<not> top (elems p el) > of_int (viewportHeight p) \<longrightarrow>
            classList (elems (snd (evaluation_pass (a, p))) el) = classList (elems p el)) \<and>
         (0 < viewportHeight p \<longrightarrow>
            double_div (of_int (viewportHeight p)) (5 / 4) < of_int (viewportHeight p))"
  using assms double_div_viewport[of "viewportHeight p"]
  by (simp add: evaluation_pass_def fold_evaluate_classList evaluated_def classList_contains_def
      set_classList_add set_classList_remove elementInView_def elementOutOfView_def)

theorem polling_pass_witness:
  "11 \<in> set (elementos (fst polling_example)) \<and>
   top (elems (snd polling_example) 11)
     \<le> double_div (of_int (viewportHeight (snd polling_example))) (5 / 4) \<and>
   classList (elems (snd (evaluation_pass polling_example)) 11) = [''scrolled''] \<and>
   12 \<in> set (elementos (fst polling_example)) \<and>
   \<not> top (elems (snd polling_example) 12)
       \<le> double_div (of_int (viewportHeight (snd polling_example))) (5 / 4) \<and>
   \<not> top (elems (snd polling_example) 12) > of_int (viewportHeight (snd polling_example)) \<and>
   classList (elems (snd (evaluation_pass polling_example)) 12) = [''js-scroll'', ''scrolled''] \<and>
   13 \<in> set (elementos (fst polling_example)) \<and>
   top (elems (snd polling_example) 13) > of_int (viewportHeight (snd polling_example)) \<and>
   classList (elems (snd (evaluation_pass polling_example)) 13) = [] \<and>
   11 \<in> set (elementos (fst rounded_example)) \<and>
   (767 / (5 / 4) :: rat) < top (elems (snd rounded_example) 11) \<and>
   top (elems (snd rounded_example) 11)
     \<le> double_div (of_int (viewportHeight (snd rounded_example))) (5 / 4) \<and>
   classList (elems (snd (evaluation_pass rounded_example)) 11) = [''scrolled'']"
proof -
  obtain a p where ap: "polling_example = (a, p)" by (cases polling_example)
  obtain b q where bq: "rounded_example = (b, q)" by (cases rounded_example)
  have e: "elementos a = [11, 12, 13]" "claseActiva a = ''scrolled''" "viewportHeight p = 800"
    "elems p 11 = blank\<lparr>top := 639\<rparr>"
    "elems p 12 = blank\<lparr>top := 700, classList := [''js-scroll'', ''scrolled'']\<rparr>"
    "elems p 13 = blank\<lparr>top := 801, classList := [''scrolled'']\<rparr>"
    using polling_example_eval by (simp_all add: ap)
  have r: "elementos b = [11, 12, 13]" "claseActiva b = ''scrolled''" "viewportHeight q = 767"
    "elems q 11 = blank\<lparr>top := 5397282678426829 / 8796093022208\<rparr>"
    using rounded_example_eval by (simp_all add: bq)
  have m: "11 \<in> set (elementos a)" "12 \<in> set (elementos a)" "13 \<in> set (elementos a)"
    "11 \<in> set (elementos b)"
    by (simp_all add: e r)
  from polling_pass[OF m(1), of p] polling_pass[OF m(2), of p] polling_pass[OF m(3), of p]
    polling_pass[OF m(4), of q]
  show ?thesis
    by (simp add: ap bq e r blank_def double_div_800 double_div_767 classList_add_def
        classList_remove_def)
qed

lemma observer_entry_fields [simp]:
  "claseActiva (fst (observer_entry en s)) = claseActiva (fst s)"
  "observarUnaVez (fst (observer_entry en s)) = observarUnaVez (fst s)"
  by (simp_all add: observer_entry_def Let_def)

lemma observer_callback_fields [simp]:
  "claseActiva (fst (observer_callback es s)) = claseActiva (fst s)"
  "observarUnaVez (fst (observer_callback es s)) = observarUnaVez (fst s)"
  unfolding observer_callback_def by (induction es arbitrary: s) simp_all

lemma observer_entry_keeps:
  assumes "observarUnaVez (fst s)" "c \<in> set (classList (elems (snd s) x))"
  shows "c \<in> set (classList (elems (snd (observer_entry en s)) x))"
  using assms
  by (auto simp: observer_entry_def Let_def classList_add_class set_classList_add)

lemma observer_callback_keeps:
  assumes "observarUnaVez (fst s)" "c \<in> set (classList (elems (snd s) x))"
  shows "c \<in> set (classList (elems (snd (observer_callback es s)) x))"
  using assms unfolding observer_callback_def
  by (induction es arbitrary: s) (simp_all add: observer_entry_keeps)

lemma notifications_keeps:
  assumes "observarUnaVez (fst s)" "c \<in> set (classList (elems (snd s) x))"
  shows "c \<in> set (classList (elems (snd (notifications bs s)) x)) \<and>
         observarUnaVez (fst (notifications bs s)) \<and>
         claseActiva (fst (notifications bs s)) = claseActiva (fst s)"
  using assms unfolding notifications_def
  by (induction bs arbitrary: s) (simp_all add: observer_callback_keeps)

lemma observer_entry_unobserved:
  "unobserved el (fst s) \<Longrightarrow> unobserved el (fst (observer_entry en s))"
  by (auto simp: unobserved_def observer_entry_def Let_def unobserve_def split: option.splits)

lemma observer_callback_unobserved:
  "unobserved el (fst s) \<Longrightarrow> unobserved el (fst (observer_callback es s))"
  unfolding observer_callback_def
  by (induction es arbitrary: s) (simp_all add: observer_entry_unobserved)

lemma notifications_unobserved:
  "unobserved el (fst s) \<Longrightarrow> unobserved el (fst (notifications bs s))"
  unfolding notifications_def
  by (induction bs arbitrary: s) (simp_all add: observer_callback_unobserved)

lemma observing_example_eval:
  "observarUnaVez (fst observing_example)"
  "claseActiva (fst observing_example) = ''scrolled''"
  "observer (fst observing_example) = Some [11, 12, 13]"
  by (simp_all add: observing_example_def scroll_constructor_def scroll_init_def scroll_page_def
      example_page_def example_query_def findElements_def setupObserver_def observe_def Let_def)

text \<open>
  Claim C6: with \<open>observarUnaVez\<close> set, an entry that reports its target as intersecting
  adds the active class and makes the observer stop observing the target at that moment;
  an element that carries the active class carries it after every later sequence of
  notifications, whatever they report; and an element that the observer does not observe
  stays unobserved through every later sequence of notifications.
\<close>

theorem reveal_once:
  assumes "observarUnaVez a"
  shows "(isIntersecting en \<and> observer a = Some ts \<longrightarrow>
            classList_contains (classList (elems (snd (observer_entry en (a, p))) (target en)))
              (claseActiva a) \<and>
            (\<exists>ts'. observer (fst (observer_entry en (a, p))) = Some ts' \<and> target en \<notin> set ts')) \<and>
         (classList_contains (classList (elems p el)) (claseActiva a) \<longrightarrow>
            classList_contains (classList (elems (snd (notifications batches (a, p))) el))
              (claseActiva a)) \<and>
         (observer a = Some ts \<and> el \<notin> set ts \<longrightarrow>
            (\<exists>ts'. observer (fst (notifications batches (a, p))) = Some ts' \<and> el \<notin> set ts'))"
proof -
  have A: "classList_contains (classList (elems (snd (observer_entry en (a, p))) (target en)))
              (claseActiva a) \<and>
            (\<exists>ts'. observer (fst (observer_entry en (a, p))) = Some ts' \<and> target en \<notin> set ts')"
    if "isIntersecting en" "observer a = Some ts"
    using that assms
    by (simp add: observer_entry_def Let_def classList_contains_def classList_add_class
        set_classList_add unobserve_def)
  have B: "classList_contains (classList (elems (snd (notifications batches (a, p))) el))
              (claseActiva a)"
    if "classList_contains (classList (elems p el)) (claseActiva a)"
    using notifications_keeps[of "(a, p)" "claseActiva a" el batches] that assms
    by (simp add: classList_contains_def)
  have C: "\<exists>ts'. observer (fst (notifications batches (a, p))) = Some ts' \<and> el \<notin> set ts'"
    if "observer a = Some ts" "el \<notin> set ts"
  proof -
    have "unobserved el (fst (a, p))" using that by (simp add: unobserved_def)
    from notifications_unobserved[OF this, of batches] show ?thesis
      by (auto simp: unobserved_def split: option.splits)
  qed
  from A B C show ?thesis by blast
qed

theorem reveal_once_witness:
  "observarUnaVez (fst observing_example) \<and>
   isIntersecting reveal_11 \<and> observer (fst observing_example) = Some [11, 12, 13] \<and>
   classList_contains (classList (elems (snd (observer_entry reveal_11 observing_example)) 11))
     ''scrolled'' \<and>
   (\<exists>ts'. observer (fst (observer_entry reveal_11 observing_example)) = Some ts' \<and> 11 \<notin> set ts') \<and>
   observer (fst (observer_entry reveal_11 observing_example)) = Some [12, 13] \<and>
   11 \<notin> set [12, 13 :: nat] \<and>
   classList_contains
     (classList (elems (snd (notifications later_batches
        (observer_entry reveal_11 observing_example))) 11)) ''scrolled'' \<and>
   (\<exists>ts'. observer (fst (notifications later_batches
        (observer_entry reveal_11 observing_example))) = Some ts' \<and> 11 \<notin> set ts')"
proof -
  obtain a p where ap: "observing_example = (a, p)" by (cases observing_example)
  obtain a1 p1 where a1: "observer_entry reveal_11 (a, p) = (a1, p1)"
    by (cases "observer_entry reveal_11 (a, p)")
  have e: "observarUnaVez a" "claseActiva a = ''scrolled''" "observer a = Some [11, 12, 13]"
    using observing_example_eval by (simp_all add: ap)
  have r: "isIntersecting reveal_11" "target reveal_11 = 11" by (simp_all add: reveal_11_def)
  have e1: "observarUnaVez a1" "claseActiva a1 = ''scrolled''"
    using observer_entry_fields[of reveal_11 "(a, p)"] e by (simp_all add: a1)
  have o1: "observer a1 = Some [12, 13]"
    using a1 e r by (auto simp: observer_entry_def Let_def unobserve_def)
  note t0 = reveal_once[OF e(1), of reveal_11 "[11, 12, 13]" p]
  note t1 = reveal_once[OF e1(1), of _ "[12, 13]" p1 11 later_batches]
  have c0: "classList_contains (classList (elems p1 11)) ''scrolled''"
    using t0 e r by (simp add: a1)
  have u0: "\<exists>ts'. observer a1 = Some ts' \<and> 11 \<notin> set ts'"
    using t0 e r by (simp add: a1)
  have c1: "classList_contains (classList (elems (snd (notifications later_batches (a1, p1))) 11))
      ''scrolled''"
    using t1 c0 e1 by simp
  have u1: "\<exists>ts'. observer (fst (notifications later_batches (a1, p1))) = Some ts' \<and> 11 \<notin> set ts'"
    using t1 o1 by simp
  show ?thesis using e r c0 u0 o1 c1 u1 by (simp add: ap a1)
qed

section \<open>Properties of the navigation bar\<close>

lemma has_class_toggle_class:
  "has_class (toggle_class c r p) x c' =
     (if x = r \<and> c' = c then \<not> has_class p r c else has_class p x c')"
  by (auto simp: has_class_def toggle_class_def classList_contains_def elems_update_element
      classList_toggle_def classList_remove_def)

lemma has_class_add_class:
  "has_class (add_class c r p) x c' = (x = r \<and> c' = c \<or> has_class p x c')"
  by (auto simp: has_class_def add_class_def classList_contains_def elems_update_element
      classList_add_def)

lemma has_class_remove_class:
  "has_class (remove_class c r p) x c' = (\<not> (x = r \<and> c' = c) \<and> has_class p x c')"
  by (auto simp: has_class_def remove_class_def classList_contains_def elems_update_element
      classList_remove_def)

lemma has_class_setAttribute [simp]:
  "has_class (setAttribute a v r p) x c = has_class p x c"
  by (simp add: has_class_def setAttribute_def elems_update_element)

lemma has_class_fold_remove:
  "has_class (fold (remove_class c) items p) x c' =
     (\<not> (x \<in> set items \<and> c' = c) \<and> has_class p x c')"
  by (induction items arbitrary: p) (auto simp: has_class_remove_class)

lemma has_class_clearTimeout [simp]: "has_class (clearTimeout h p) x c = has_class p x c"
  by (simp add: has_class_def clearTimeout_def)

lemma has_class_setTimeout [simp]: "has_class (snd (setTimeout d p)) x c = has_class p x c"
  by (simp add: has_class_def setTimeout_def Let_def)

lemma aria_setAttribute:
  "aria_expanded (setAttribute ''aria-expanded'' v r p) x =
     (if x = r then Some v else aria_expanded p x)"
  by (simp add: aria_expanded_def setAttribute_def elems_update_element)

lemma aria_toggle_class [simp]: "aria_expanded (toggle_class c r p) x = aria_expanded p x"
  by (simp add: aria_expanded_def toggle_class_def elems_update_element)

lemma aria_remove_class [simp]: "aria_expanded (remove_class c r p) x = aria_expanded p x"
  by (simp add: aria_expanded_def remove_class_def elems_update_element)

lemma snd_classList_toggle: "snd (classList_toggle cl c) = (c \<notin> set cl)"
  by (simp add: classList_toggle_def)

lemma toggleMenuElements_ok:
  assumes "burger n = Some b" "nav n = Some v" "header n = Some h"
  shows "toggleMenuElements n p =
           Inr (setAttribute ''aria-expanded''
                  (if has_class p b ''header__nav-burguer--active'' then ''false'' else ''true'') b
                  (toggle_class ''header--active'' h
                     (toggle_class ''header__nav--active'' v
                        (toggle_class ''header__nav-burguer--active'' b p))))"
  using assms
  by (simp add: toggleMenuElements_def Let_def snd_classList_toggle has_class_def
      classList_contains_def)

lemma has_class_closeLangMenu:
  "has_class (closeLangMenu n p) x c =
     (has_class p x c \<and>
      \<not> (langMenu n \<noteq> None \<and>
         (langList n = Some x \<and> c = ''header__nav-langlist--active'' \<or>
          langMenu n = Some x \<and> c = ''header__nav-langmenu--active'')))"
  by (auto simp: closeLangMenu_def Let_def has_class_remove_class split: option.splits)

lemma aria_closeLangMenu:
  "aria_expanded (closeLangMenu n p) x =
     (if langMenu n = Some x then Some ''false'' else aria_expanded p x)"
  by (auto simp: closeLangMenu_def Let_def aria_setAttribute split: option.splits)

lemma onBurgerClick_ok:
  assumes "burger n = Some b" "nav n = Some v" "header n = Some h"
  shows "onBurgerClick (n, p) =
           Inr (n, closeLangMenu n
                 (setAttribute ''aria-expanded''
                    (if has_class p b ''header__nav-burguer--active'' then ''false'' else ''true'') b
                    (toggle_class ''header--active'' h
                       (toggle_class ''header__nav--active'' v
                          (toggle_class ''header__nav-burguer--active'' b p)))))"
  by (simp add: onBurgerClick_def toggleMenuElements_ok[OF assms])

lemma has_class_deactivate:
  assumes "navItems n = Some items"
  shows "\<exists>p'. deactivateAllNavItems n p = Inr p' \<and>
           (\<forall>x c. has_class p' x c = (\<not> (x \<in> set items \<and> c = ''item--active'') \<and> has_class p x c))"
  using assms by (simp add: deactivateAllNavItems_def has_class_fold_remove)

lemma onNavItemClick_classes:
  assumes "burger n = Some b" "nav n = Some v" "header n = Some h" "navItems n = Some items"
  shows "\<exists>n' p'. onNavItemClick item (n, p) = Inr (n', p') \<and>
           (\<forall>x. has_class p' x ''item--active'' =
                  (if x = item then item \<in> set items \<or> \<not> has_class p item ''item--active''
                   else x \<notin> set items \<and> has_class p x ''item--active''))"
proof -
  let ?n1 = "n\<lparr>permiteClickReciente := True\<rparr>"
  let ?p1 = "if truthy (clickTimeout ?n1) then clearTimeout (the (clickTimeout ?n1)) p else p"
  have b: "burger ?n1 = Some b" "nav ?n1 = Some v" "header ?n1 = Some h"
    "navItems ?n1 = Some items" using assms by simp_all
  note tm = toggleMenuElements_ok[OF b(1-3), of ?p1]
  obtain p2 where p2: "toggleMenuElements ?n1 ?p1 = Inr p2"
    and c2: "\<And>x. has_class p2 x ''item--active'' = has_class p x ''item--active''"
    using tm by (simp add: has_class_toggle_class)
  from has_class_deactivate[OF b(4), of p2] obtain p3 where
    p3: "deactivateAllNavItems ?n1 p2 = Inr p3"
    and c3: "\<And>x c. has_class p3 x c = (\<not> (x \<in> set items \<and> c = ''item--active'') \<and> has_class p2 x c)"
    by blast
  have "onNavItemClick item (n, p) =
          Inr (?n1\<lparr>clickTimeout := Some (fst (setTimeout 800 (toggle_class ''item--active'' item p3)))\<rparr>,
               snd (setTimeout 800 (toggle_class ''item--active'' item p3)))"
    using p2 p3 by (cases "truthy (clickTimeout n)") (simp_all add: onNavItemClick_def Let_def)
  moreover have "has_class (snd (setTimeout 800 (toggle_class ''item--active'' item p3))) x ''item--active'' =
                  (if x = item then item \<in> set items \<or> \<not> has_class p item ''item--active''
                   else x \<notin> set items \<and> has_class p x ''item--active'')" for x
    by (auto simp: has_class_toggle_class c3 c2)
  ultimately show ?thesis by blast
qed

lemma nav_example_Inr: "nav_constructor default_options example_page = Inr nav_example"
  by (simp add: nav_example_def nav_constructor_def init_def setupEventListeners_def
      default_options_def example_page_def example_query_def findElement_def findElements_def
      Let_def)

lemma nav_example_fields:
  "header (fst nav_example) = Some 1" "burger (fst nav_example) = Some 2"
  "nav (fst nav_example) = Some 3" "navItems (fst nav_example) = Some [4, 5, 6]"
  "langMenu (fst nav_example) = Some 7" "langList (fst nav_example) = Some 8"
  "langItems (fst nav_example) = Some [9, 10]"
  by (simp_all add: nav_example_def nav_constructor_def init_def setupEventListeners_def
      default_options_def example_page_def example_query_def findElement_def findElements_def
      Let_def)

lemma nav_example_closed:
  "\<not> has_class (snd nav_example) 2 ''header__nav-burguer--active''"
  "\<not> has_class (snd nav_example) 3 ''header__nav--active''"
  "\<not> has_class (snd nav_example) 1 ''header--active''"
  by (simp_all add: nav_example_def nav_constructor_def init_def setupEventListeners_def
      default_options_def example_page_def example_query_def findElement_def findElements_def
      Let_def has_class_def classList_contains_def setup_navItem_def setup_langItem_def
      update_element_def setAttribute_def blank_def)

text \<open>
  Claim C2 says that \<open>destroy\<close> removes every listener that the set-up attached, the
  keydown listeners of the items included. The code: on the example page, after the
  construction, a click on item 4 at 10 ms and a scroll at 20 ms, \<open>destroy\<close> leaves no
  listener on the document or the window, no timeout and no frame callback, but the keydown
  listener of every navigation item and of every language item is still attached.
\<close>

theorem destroy_keeps_keydown_listeners:
  "remaining example_refs
     (then_do (then_do (nav_constructor default_options example_page)
                 (nav_run [(10, ClickNavItem 4), (20, Scroll)])) destroy)
   = Some ([(4, ''keydown'', NavKeyDown 4), (5, ''keydown'', NavKeyDown 5),
            (6, ''keydown'', NavKeyDown 6), (9, ''keydown'', LangKeyDown 9),
            (10, ''keydown'', LangKeyDown 10)], [], [], [], [])"
  by (simp add: remaining_def then_do_def example_refs_def nav_constructor_def init_def
      setupEventListeners_def default_options_def example_page_def example_query_def
      findElement_def findElements_def Let_def setup_navItem_def setup_langItem_def
      update_element_def setAttribute_def blank_def addEventListener_def
      removeEventListener_def destroy_def destroy_navItem_def destroy_langItem_def
      advance_def onNavItemClick_def toggleMenuElements_def deactivateAllNavItems_def
      toggle_class_def remove_class_def classList_toggle_def classList_remove_def
      setTimeout_def clearTimeout_def truthy_def onWindowScroll_def requestAnimationFrame_def
      cancelAnimationFrame_def no_handlers_def)

text \<open>
  Where \<open>destroy\<close> does return: whenever both item lists are lists, as they are after
  \<open>init\<close>, also after an \<open>init\<close> that gave up, and after \<open>destroy\<close> itself.
\<close>

lemma destroy_returns:
  assumes "navItems (fst s) = Some items" "langItems (fst s) = Some litems"
  shows "\<exists>s'. destroy s = Inr s' \<and> navItems (fst s') = Some [] \<and> langItems (fst s') = Some []"
  using assms by (simp add: destroy_def Let_def)

lemma init_aborted:
  assumes "findElement p (selectorBurger n) = None"
  shows "\<exists>n'. init (n, p) = Inr (n', p) \<and>
           navItems n' = Some (findElements p (selectorNavItems n)) \<and>
           langItems n' = Some (findElements p (selectorLangItems n))"
  using assms by (simp add: init_def Let_def)

text \<open>
  Claim C3 says that \<open>destroy\<close> never raises when \<open>init\<close> never ran. The code: for all
  options and every page, the controller constructed with \<open>autoInit = false\<close> raises a
  TypeError in \<open>destroy\<close>, at \<open>this.navItems.forEach\<close> on \<open>null\<close>.
\<close>

theorem destroy_without_init:
  "\<exists>s. nav_constructor (opts\<lparr>autoInit := False\<rparr>) p = Inr s \<and> destroy s = Inl TypeError"
  by (simp add: nav_constructor_def destroy_def Let_def)

text \<open>
  Claim C7: on an initialised controller, a click on a navigation item returns normally and
  afterwards, among the navigation items, exactly the clicked one carries
  \<open>item--active\<close>, whatever the items carried before; a keydown with Enter or Space on the
  item does what the click does.
\<close>

theorem nav_item_click_exclusive:
  assumes "burger n = Some b" "nav n = Some v" "header n = Some h" "navItems n = Some items"
    and "item \<in> set items"
  shows "(\<exists>n' p'. onNavItemClick item (n, p) = Inr (n', p') \<and>
            (\<forall>r \<in> set items. has_class p' r ''item--active'' = (r = item))) \<and>
         (activation_key k \<longrightarrow> navItemKeyDown k item (n, p) = onNavItemClick item (n, p)) \<and>
         activation_key ''Enter'' \<and> activation_key '' ''"
proof -
  from onNavItemClick_classes[OF assms(1-4), of item p] obtain n' p' where
    1: "onNavItemClick item (n, p) = Inr (n', p')"
    and 2: "\<And>x. has_class p' x ''item--active'' =
                  (if x = item then item \<in> set items \<or> \<not> has_class p item ''item--active''
                   else x \<notin> set items \<and> has_class p x ''item--active'')"
    by blast
  have "\<forall>r \<in> set items. has_class p' r ''item--active'' = (r = item)"
    using assms(5) by (simp add: 2)
  then show ?thesis using 1 by (simp add: navItemKeyDown_def activation_key_def)
qed

theorem nav_item_click_exclusive_witness:
  "burger (fst nav_example) = Some 2 \<and> nav (fst nav_example) = Some 3 \<and>
   header (fst nav_example) = Some 1 \<and> navItems (fst nav_example) = Some [4, 5, 6] \<and>
   5 \<in> set [4, 5, 6 :: nat] \<and>
   has_class two_active 4 ''item--active'' \<and> has_class two_active 6 ''item--active'' \<and>
   (\<exists>n' p'. onNavItemClick 5 (fst nav_example, two_active) = Inr (n', p') \<and>
      \<not> has_class p' 4 ''item--active'' \<and> has_class p' 5 ''item--active'' \<and>
      \<not> has_class p' 6 ''item--active'') \<and>
   activation_key ''Enter'' \<and>
   navItemKeyDown ''Enter'' 5 (fst nav_example, two_active)
     = onNavItemClick 5 (fst nav_example, two_active)"
proof -
  note f = nav_example_fields
  have m: "5 \<in> set [4, 5, 6 :: nat]" by simp
  have a: "has_class two_active 4 ''item--active''" "has_class two_active 6 ''item--active''"
    by (simp_all add: two_active_def has_class_add_class)
  from nav_item_click_exclusive[OF f(2) f(3) f(1) f(4) m, of two_active "''Enter''"]
  show ?thesis using f a by simp
qed

text \<open>
  Claim C9: on an initialised controller two burger activations in succession return
  normally; the first toggles each of the three state classes (on the button, the
  navigation container and the header), the second restores each of them; and when the
  button did not carry its state class at first, \<open>aria-expanded\<close> of the button is
  \<open>"false"\<close> after the second activation (and was \<open>"true"\<close> after the first, unless the
  button is also the language button). A keydown with Enter or Space on the button does
  what the click does.
\<close>

theorem burger_toggle_twice:
  assumes "burger n = Some b" "nav n = Some v" "header n = Some h"
  shows "(\<exists>p1 p2. onBurgerClick (n, p) = Inr (n, p1) \<and> onBurgerClick (n, p1) = Inr (n, p2) \<and>
            has_class p1 b ''header__nav-burguer--active''
              = (\<not> has_class p b ''header__nav-burguer--active'') \<and>
            has_class p1 v ''header__nav--active'' = (\<not> has_class p v ''header__nav--active'') \<and>
            has_class p1 h ''header--active'' = (\<not> has_class p h ''header--active'') \<and>
            has_class p2 b ''header__nav-burguer--active''
              = has_class p b ''header__nav-burguer--active'' \<and>
            has_class p2 v ''header__nav--active'' = has_class p v ''header__nav--active'' \<and>
            has_class p2 h ''header--active'' = has_class p h ''header--active'' \<and>
            (\<not> has_class p b ''header__nav-burguer--active'' \<longrightarrow>
               aria_expanded p2 b = Some ''false'' \<and>
               (langMenu n \<noteq> Some b \<longrightarrow> aria_expanded p1 b = Some ''true''))) \<and>
         (activation_key k \<longrightarrow> onBurgerKeyDown k (n, p) = onBurgerClick (n, p))"
  by (simp add: onBurgerClick_ok[OF assms] has_class_closeLangMenu aria_closeLangMenu
      has_class_toggle_class aria_setAttribute onBurgerKeyDown_def)

theorem burger_toggle_twice_witness:
  "burger (fst nav_example) = Some 2 \<and> nav (fst nav_example) = Some 3 \<and>
   header (fst nav_example) = Some 1 \<and>
   \<not> has_class (snd nav_example) 2 ''header__nav-burguer--active'' \<and>
   langMenu (fst nav_example) \<noteq> Some 2 \<and>
   (\<exists>p1 p2. onBurgerClick nav_example = Inr (fst nav_example, p1) \<and>
      onBurgerClick (fst nav_example, p1) = Inr (fst nav_example, p2) \<and>
      has_class p1 2 ''header__nav-burguer--active'' \<and> has_class p1 3 ''header__nav--active'' \<and>
      has_class p1 1 ''header--active'' \<and> aria_expanded p1 2 = Some ''true'' \<and>
      \<not> has_class p2 2 ''header__nav-burguer--active'' \<and> \<not> has_class p2 3 ''header__nav--active'' \<and>
      \<not> has_class p2 1 ''header--active'' \<and> aria_expanded p2 2 = Some ''false'') \<and>
   activation_key ''Enter'' \<and> onBurgerKeyDown ''Enter'' nav_example = onBurgerClick nav_example"
proof -
  note f = nav_example_fields
  note c = nav_example_closed
  obtain n p where np: "nav_example = (n, p)" by (cases nav_example)
  have k: "activation_key ''Enter''" by (simp add: activation_key_def)
  from burger_toggle_twice[OF f(2) f(3) f(1), of "snd nav_example" "''Enter''"]
  show ?thesis using f c k by (auto simp: np)
qed

text \<open>
  Claim C10: on an initialised controller with a language button, every burger activation,
  whether it opens or closes the burger menu, leaves the language button without its
  active class and with \<open>aria-expanded = "false"\<close>, and the language list, if there is one,
  without its active class. A keydown with Enter or Space on the burger button does what the
  click does.
\<close>

theorem burger_closes_lang_menu:
  assumes "burger n = Some b" "nav n = Some v" "header n = Some h" "langMenu n = Some m"
  shows "(\<exists>p'. onBurgerClick (n, p) = Inr (n, p') \<and>
            has_class p' b ''header__nav-burguer--active''
              = (\<not> has_class p b ''header__nav-burguer--active'') \<and>
            \<not> has_class p' m ''header__nav-langmenu--active'' \<and>
            aria_expanded p' m = Some ''false'' \<and>
            (\<forall>l. langList n = Some l \<longrightarrow> \<not> has_class p' l ''header__nav-langlist--active'')) \<and>
         (activation_key k \<longrightarrow> onBurgerKeyDown k (n, p) = onBurgerClick (n, p))"
  using assms
  by (simp add: onBurgerClick_ok[OF assms(1-3)] has_class_closeLangMenu aria_closeLangMenu
      has_class_toggle_class onBurgerKeyDown_def)

theorem burger_closes_lang_menu_witness:
  "burger (fst nav_example) = Some 2 \<and> nav (fst nav_example) = Some 3 \<and>
   header (fst nav_example) = Some 1 \<and> langMenu (fst nav_example) = Some 7 \<and>
   langList (fst nav_example) = Some 8 \<and>
   has_class lang_open 7 ''header__nav-langmenu--active'' \<and>
   has_class lang_open 8 ''header__nav-langlist--active'' \<and>
   (\<exists>p1 p2. onBurgerClick (fst nav_example, lang_open) = Inr (fst nav_example, p1) \<and>
      has_class p1 2 ''header__nav-burguer--active'' \<and>
      \<not> has_class p1 7 ''header__nav-langmenu--active'' \<and>
      \<not> has_class p1 8 ''header__nav-langlist--active'' \<and> aria_expanded p1 7 = Some ''false'' \<and>
      onBurgerClick (onLangMenuClick (fst nav_example, p1)) = Inr (fst nav_example, p2) \<and>
      \<not> has_class p2 2 ''header__nav-burguer--active'' \<and>
      \<not> has_class p2 7 ''header__nav-langmenu--active'' \<and>
      \<not> has_class p2 8 ''header__nav-langlist--active'' \<and> aria_expanded p2 7 = Some ''false'') \<and>
   activation_key '' '' \<and>
   onBurgerKeyDown '' '' (fst nav_example, lang_open) = onBurgerClick (fst nav_example, lang_open)"
proof -
  note f = nav_example_fields
  note c = nav_example_closed
  have lo: "has_class lang_open x cl =
      (if (x = 7 \<and> cl = ''header__nav-langmenu--active'') \<or> (x = 8 \<and> cl = ''header__nav-langlist--active'')
       then \<not> has_class (snd nav_example) x cl else has_class (snd nav_example) x cl)" for x cl
    by (auto simp: lang_open_def onLangMenuClick_def toggleLangMenu_def f Let_def
        has_class_toggle_class)
  have l0: "\<not> has_class (snd nav_example) 7 ''header__nav-langmenu--active''"
    "\<not> has_class (snd nav_example) 8 ''header__nav-langlist--active''"
    by (simp_all add: nav_example_def nav_constructor_def init_def setupEventListeners_def
      default_options_def example_page_def example_query_def findElement_def findElements_def
      Let_def has_class_def classList_contains_def setup_navItem_def setup_langItem_def
      update_element_def setAttribute_def blank_def)
  have o: "has_class lang_open 7 ''header__nav-langmenu--active''"
    "has_class lang_open 8 ''header__nav-langlist--active''"
    "\<not> has_class lang_open 2 ''header__nav-burguer--active''"
    using l0 c by (simp_all add: lo)
  have k: "activation_key '' ''" by (simp add: activation_key_def)
  note t = burger_closes_lang_menu[OF f(2) f(3) f(1) f(5), of lang_open "'' ''"]
  have kd: "onBurgerKeyDown '' '' (fst nav_example, lang_open)
      = onBurgerClick (fst nav_example, lang_open)"
    using t k by simp
  from t obtain p1 where
    1: "onBurgerClick (fst nav_example, lang_open) = Inr (fst nav_example, p1)"
      "has_class p1 2 ''header__nav-burguer--active''"
      "\<not> has_class p1 7 ''header__nav-langmenu--active''"
      "aria_expanded p1 7 = Some ''false''"
      "\<not> has_class p1 8 ''header__nav-langlist--active''"
    using o f by auto
  let ?q = "snd (onLangMenuClick (fst nav_example, p1))"
  have q: "onLangMenuClick (fst nav_example, p1) = (fst nav_example, ?q)"
    by (simp add: onLangMenuClick_def)
  have qb: "has_class ?q 2 ''header__nav-burguer--active''"
    using 1(2) by (simp add: onLangMenuClick_def toggleLangMenu_def f Let_def
        has_class_toggle_class)
  from burger_closes_lang_menu[OF f(2) f(3) f(1) f(5), of ?q] obtain p2 where
    2: "onBurgerClick (fst nav_example, ?q) = Inr (fst nav_example, p2)"
      "\<not> has_class p2 2 ''header__nav-burguer--active''"
      "\<not> has_class p2 7 ''header__nav-langmenu--active''"
      "aria_expanded p2 7 = Some ''false''"
      "\<not> has_class p2 8 ''header__nav-langlist--active''"
    using qb f by auto
  show ?thesis using f o 1 2 q k kd by auto
qed

lemma sched_update_element [simp]:
  "timers (update_element r g p) = timers p" "frames (update_element r g p) = frames p"
  "lastHandle (update_element r g p) = lastHandle p" "clock (update_element r g p) = clock p"
  by (simp_all add: update_element_def)

lemma sched_toggle_class [simp]:
  "timers (toggle_class c r p) = timers p" "frames (toggle_class c r p) = frames p"
  "lastHandle (toggle_class c r p) = lastHandle p" "clock (toggle_class c r p) = clock p"
  by (simp_all add: toggle_class_def)

lemma sched_remove_class [simp]:
  "timers (remove_class c r p) = timers p" "frames (remove_class c r p) = frames p"
  "lastHandle (remove_class c r p) = lastHandle p" "clock (remove_class c r p) = clock p"
  by (simp_all add: remove_class_def)

lemma sched_setAttribute [simp]:
  "timers (setAttribute a v r p) = timers p" "frames (setAttribute a v r p) = frames p"
  "lastHandle (setAttribute a v r p) = lastHandle p" "clock (setAttribute a v r p) = clock p"
  by (simp_all add: setAttribute_def)

lemma sched_fold_remove_class [simp]:
  "timers (fold (remove_class c) items p) = timers p"
  "frames (fold (remove_class c) items p) = frames p"
  "lastHandle (fold (remove_class c) items p) = lastHandle p"
  "clock (fold (remove_class c) items p) = clock p"
  by (induction items arbitrary: p) simp_all

lemma fold_timeout_callbacks:
  "fold (\<lambda>tm. click_timeout_callback) tms n =
     (if tms = [] then n else n\<lparr>permiteClickReciente := False\<rparr>)"
  by (induction tms arbitrary: n) (simp_all add: click_timeout_callback_def)

lemma advance_eq:
  "advance t (n, p) =
     (if filter (\<lambda>tm. snd tm \<le> t) (timers p) = [] then n
      else n\<lparr>permiteClickReciente := False\<rparr>,
      p\<lparr>timers := filter (\<lambda>tm. \<not> snd tm \<le> t) (timers p), clock := t\<rparr>)"
  by (simp add: advance_def fold_timeout_callbacks)

lemma has_class_sched [simp]:
  "has_class (p\<lparr>timers := tms\<rparr>) = has_class p"
  "has_class (p\<lparr>frames := fs\<rparr>) = has_class p"
  "has_class (p\<lparr>clock := t\<rparr>) = has_class p"
  "has_class (p\<lparr>lastHandle := h\<rparr>) = has_class p"
  by (simp_all add: has_class_def fun_eq_iff)

lemma onNavItemClick_ok:
  assumes "burger n = Some b" "nav n = Some v" "header n = Some h" "navItems n = Some items"
    and "item \<in> set items"
    and "list_all (\<lambda>tm. clickTimeout n = Some (fst tm) \<and> fst tm \<noteq> 0) (timers p)"
  shows "\<exists>p'. onNavItemClick item (n, p) =
                 Inr (n\<lparr>permiteClickReciente := True, clickTimeout := Some (Suc (lastHandle p))\<rparr>, p') \<and>
           timers p' = [(Suc (lastHandle p), clock p + 800)] \<and> frames p' = frames p \<and>
           list_all (\<lambda>r. has_class p' r ''item--active'' = (r = item)) items"
proof -
  let ?n1 = "n\<lparr>permiteClickReciente := True\<rparr>"
  define p1 where "p1 = (if truthy (clickTimeout n) then clearTimeout (the (clickTimeout n)) p else p)"
  have t1: "timers p1 = []"
  proof (cases "timers p")
    case Nil
    then show ?thesis by (simp add: p1_def clearTimeout_def)
  next
    case (Cons tm tms)
    then have "clickTimeout n = Some (fst tm)" "fst tm \<noteq> 0" using assms(6) by simp_all
    moreover have "\<forall>x \<in> set (timers p). fst x = fst tm"
      using assms(6) \<open>clickTimeout n = Some (fst tm)\<close> by (auto simp: list_all_iff)
    ultimately show ?thesis
      by (auto simp: p1_def clearTimeout_def truthy_def filter_empty_conv)
  qed
  have s1: "frames p1 = frames p" "lastHandle p1 = lastHandle p" "clock p1 = clock p"
    "\<And>x c. has_class p1 x c = has_class p x c"
    by (simp_all add: p1_def clearTimeout_def has_class_def)
  have b: "burger ?n1 = Some b" "nav ?n1 = Some v" "header ?n1 = Some h"
    "navItems ?n1 = Some items" using assms by simp_all
  let ?p2 = "setAttribute ''aria-expanded''
                  (if has_class p1 b ''header__nav-burguer--active'' then ''false'' else ''true'') b
                  (toggle_class ''header--active'' h
                     (toggle_class ''header__nav--active'' v
                        (toggle_class ''header__nav-burguer--active'' b p1)))"
  have p2: "toggleMenuElements ?n1 p1 = Inr ?p2" by (rule toggleMenuElements_ok[OF b(1-3)])
  let ?p3 = "fold (remove_class ''item--active'') items ?p2"
  have p3: "deactivateAllNavItems ?n1 ?p2 = Inr ?p3"
    by (simp add: deactivateAllNavItems_def assms(4))
  let ?p4 = "toggle_class ''item--active'' item ?p3"
  let ?p5 = "snd (setTimeout 800 ?p4)"
  have e: "onNavItemClick item (n, p) =
          Inr (?n1\<lparr>clickTimeout := Some (fst (setTimeout 800 ?p4))\<rparr>, ?p5)"
    using p2 p3
    by (cases "truthy (clickTimeout n)") (simp_all add: onNavItemClick_def Let_def p1_def)
  have h: "fst (setTimeout 800 ?p4) = Suc (lastHandle p)"
    by (simp add: setTimeout_def Let_def s1)
  have tm: "timers ?p5 = [(Suc (lastHandle p), clock p + 800)]"
    by (simp add: setTimeout_def Let_def s1 t1)
  have fr: "frames ?p5 = frames p" by (simp add: setTimeout_def Let_def s1)
  have cl: "list_all (\<lambda>r. has_class ?p5 r ''item--active'' = (r = item)) items"
    using assms(5)
    by (auto simp: list_all_iff has_class_toggle_class has_class_fold_remove s1)
  show ?thesis using e h tm fr cl by simp
qed

lemma run_callbacks_suppressed:
  assumes "permiteClickReciente n"
  shows "run_callbacks hs (n, p) = Inr (if hs = [] then n else n\<lparr>rafScroll := None\<rparr>, p)"
  using assms
proof (induction hs arbitrary: n)
  case Nil
  then show ?case by simp
next
  case (Cons h hs)
  have "permiteClickReciente (n\<lparr>rafScroll := None\<rparr>)" using Cons.prems by simp
  from Cons.IH[OF this] show ?case using Cons.prems
    by (simp add: scroll_callback_def)
qed

lemma run_callbacks_clears:
  assumes "\<not> permiteClickReciente n" "navItems n = Some items"
    and "hs \<noteq> [] \<or> list_all (\<lambda>r. \<not> has_class p r ''item--active'') items"
  shows "\<exists>n' p'. run_callbacks hs (n, p) = Inr (n', p') \<and>
           list_all (\<lambda>r. \<not> has_class p' r ''item--active'') items"
  using assms
proof (induction hs arbitrary: n p)
  case Nil
  then show ?case by simp
next
  case (Cons h hs)
  let ?n = "n\<lparr>rafScroll := None\<rparr>"
  let ?p = "fold (remove_class ''item--active'') items p"
  have 1: "scroll_callback (n, p) = Inr (?n, ?p)"
    using Cons.prems by (simp add: scroll_callback_def deactivateAllNavItems_def)
  have 2: "\<not> permiteClickReciente ?n" "navItems ?n = Some items" using Cons.prems by simp_all
  have 3: "hs \<noteq> [] \<or> list_all (\<lambda>r. \<not> has_class ?p r ''item--active'') items"
    by (simp add: list_all_iff has_class_fold_remove)
  from Cons.IH[OF 2 3] show ?case by (simp add: 1)
qed

lemma in_window_step:
  assumes "in_window h t0 items item s" "t < t0 + 800" "ev = Scroll \<or> ev = Frame"
  shows "\<exists>s'. nav_handle ev (advance t s) = Inr s' \<and> in_window h t0 items item s'"
proof -
  obtain n p where s: "s = (n, p)" by (cases s)
  let ?p = "p\<lparr>timers := [(h, t0 + 800)], clock := t\<rparr>"
  have a: "advance t s = (n, ?p)"
    using assms(1,2) by (simp add: s advance_eq in_window_def)
  have w: "permiteClickReciente n" "navItems n = Some items"
    "\<not> truthy (rafScroll n) \<or> frames p \<noteq> []"
    "list_all (\<lambda>r. has_class p r ''item--active'' = (r = item)) items"
    using assms(1) by (simp_all add: s in_window_def)
  from assms(3) show ?thesis
  proof
    assume "ev = Scroll"
    then show ?thesis using w
      by (auto simp: a onWindowScroll_def in_window_def requestAnimationFrame_def Let_def
          truthy_def)
  next
    assume "ev = Frame"
    then show ?thesis using w
      by (auto simp: a nav_frame_def run_callbacks_suppressed in_window_def truthy_def)
  qed
qed

lemma in_window_run:
  assumes "in_window h t0 items item s"
    and "\<forall>te \<in> set evs. fst te < t0 + 800 \<and> (snd te = Scroll \<or> snd te = Frame)"
  shows "\<exists>s'. nav_run evs s = Inr s' \<and> in_window h t0 items item s'"
  using assms
proof (induction evs arbitrary: s)
  case Nil
  then show ?case by simp
next
  case (Cons te evs)
  from Cons.prems(2) have 1: "fst te < t0 + 800" "snd te = Scroll \<or> snd te = Frame" by simp_all
  from in_window_step[OF Cons.prems(1) 1] obtain s1 where
    2: "nav_handle (snd te) (advance (fst te) s) = Inr s1" "in_window h t0 items item s1"
    by blast
  from Cons.IH[OF 2(2)] Cons.prems(2) show ?case by (simp add: 2(1))
qed

lemma after_window:
  assumes "in_window h t0 items item s" "t0 + 800 < tf"
  shows "\<exists>s'. nav_run [(ts, Scroll), (tf, Frame)] s = Inr s' \<and>
           list_all (\<lambda>r. \<not> has_class (snd s') r ''item--active'') items"
proof -
  obtain n p where s: "s = (n, p)" by (cases s)
  have w: "permiteClickReciente n" "navItems n = Some items" "timers p = [(h, t0 + 800)]"
    "\<not> truthy (rafScroll n) \<or> frames p \<noteq> []"
    using assms(1) by (simp_all add: s in_window_def)
  obtain n1 p1 where 1: "onWindowScroll (advance ts s) = (n1, p1)"
    by (cases "onWindowScroll (advance ts s)")
  have f1: "frames p1 \<noteq> []" "navItems n1 = Some items"
    "timers p1 = [] \<and> \<not> permiteClickReciente n1 \<or> timers p1 = [(h, t0 + 800)]"
    using 1 w
    by (auto simp: s advance_eq onWindowScroll_def requestAnimationFrame_def Let_def
        split: if_splits)
  obtain n2 p2 where 2: "advance tf (n1, p1) = (n2, p2)" by (cases "advance tf (n1, p1)")
  have f2: "frames p2 \<noteq> []" "navItems n2 = Some items" "\<not> permiteClickReciente n2"
    using 2 f1 assms(2) by (auto simp: advance_eq split: if_splits)
  from run_callbacks_clears[OF f2(3) f2(2), of "frames p2" "p2\<lparr>frames := []\<rparr>"] f2(1)
  obtain n3 p3 where 3: "run_callbacks (frames p2) (n2, p2\<lparr>frames := []\<rparr>) = Inr (n3, p3)"
    "list_all (\<lambda>r. \<not> has_class p3 r ''item--active'') items" by blast
  show ?thesis using 1 2 3 by (simp add: nav_frame_def)
qed

text \<open>
  Well-formedness holds of every state that the constructor returns on a page without
  pending timeouts and frame callbacks, and every event preserves it.
\<close>

lemma sched_closeLangMenu [simp]:
  "timers (closeLangMenu n p) = timers p" "frames (closeLangMenu n p) = frames p"
  by (simp_all add: closeLangMenu_def Let_def split: option.splits)

lemma nav_wf_onBurgerClick:
  assumes "nav_wf s" "onBurgerClick s = Inr s'"
  shows "nav_wf s'"
  using assms
  by (auto simp: onBurgerClick_def toggleMenuElements_def Let_def nav_wf_def
      split: sum.splits option.splits)

lemma nav_wf_advance: "nav_wf s \<Longrightarrow> nav_wf (advance t s)"
  by (cases s) (auto simp: advance_eq nav_wf_def list_all_iff)

lemma nav_wf_onNavItemClick:
  assumes "nav_wf s" "onNavItemClick item s = Inr s'"
  shows "nav_wf s'"
proof -
  obtain n p where s: "s = (n, p)" by (cases s)
  define p1 where "p1 = (if truthy (clickTimeout n) then clearTimeout (the (clickTimeout n)) p else p)"
  have t1: "timers p1 = []"
  proof (cases "timers p")
    case Nil
    then show ?thesis by (simp add: p1_def clearTimeout_def)
  next
    case (Cons tm tms)
    then have "clickTimeout n = Some (fst tm)" "fst tm \<noteq> 0"
      using assms(1) by (simp_all add: nav_wf_def s)
    moreover have "\<forall>x \<in> set (timers p). fst x = fst tm"
      using assms(1) \<open>clickTimeout n = Some (fst tm)\<close> by (auto simp: nav_wf_def s list_all_iff)
    ultimately show ?thesis
      by (auto simp: p1_def clearTimeout_def truthy_def filter_empty_conv)
  qed
  have f1: "frames p1 = frames p" by (simp add: p1_def clearTimeout_def)
  have e: "onNavItemClick item (n, p) =
     (case toggleMenuElements (n\<lparr>permiteClickReciente := True\<rparr>) p1 of
           Inl e \<Rightarrow> Inl e
         | Inr p2 \<Rightarrow>
             (case deactivateAllNavItems (n\<lparr>permiteClickReciente := True\<rparr>) p2 of
                Inl e \<Rightarrow> Inl e
              | Inr p3 \<Rightarrow>
                  Inr (n\<lparr>permiteClickReciente := True,
                         clickTimeout := Some (fst (setTimeout 800 (toggle_class ''item--active'' item p3)))\<rparr>,
                       snd (setTimeout 800 (toggle_class ''item--active'' item p3)))))"
    by (cases "truthy (clickTimeout n)")
      (simp_all add: onNavItemClick_def Let_def p1_def split: sum.splits)
  show ?thesis using assms t1 f1 unfolding s e
    by (auto simp: toggleMenuElements_def deactivateAllNavItems_def Let_def nav_wf_def
        setTimeout_def split: sum.splits option.splits)
qed

lemma run_callbacks_wf:
  assumes "run_callbacks hs (n, p) = Inr (n', p')"
  shows "frames p' = frames p \<and> timers p' = timers p \<and> clickTimeout n' = clickTimeout n \<and>
         (hs \<noteq> [] \<longrightarrow> rafScroll n' = None) \<and> (hs = [] \<longrightarrow> rafScroll n' = rafScroll n)"
  using assms
proof (induction hs arbitrary: n p)
  case Nil
  then show ?case by simp
next
  case (Cons h hs)
  from Cons.prems obtain n1 p1 where 1: "scroll_callback (n, p) = Inr (n1, p1)"
    "run_callbacks hs (n1, p1) = Inr (n', p')"
    by (auto split: sum.splits)
  have 2: "frames p1 = frames p" "timers p1 = timers p" "clickTimeout n1 = clickTimeout n"
    "rafScroll n1 = None"
    using 1(1)
    by (auto simp: scroll_callback_def deactivateAllNavItems_def split: if_splits option.splits)
  from Cons.IH[OF 1(2)] 2 show ?case by (cases hs) auto
qed

lemma nav_wf_frame:
  assumes "nav_wf s" "nav_frame s = Inr s'"
  shows "nav_wf s'"
proof -
  obtain n p where s: "s = (n, p)" by (cases s)
  obtain n' p' where s': "s' = (n', p')" by (cases s')
  have r: "run_callbacks (frames p) (n, p\<lparr>frames := []\<rparr>) = Inr (n', p')"
    using assms(2) by (simp add: nav_frame_def s s')
  from run_callbacks_wf[OF r] have f: "frames p' = []" "timers p' = timers p"
    "clickTimeout n' = clickTimeout n" "frames p \<noteq> [] \<longrightarrow> rafScroll n' = None"
    "frames p = [] \<longrightarrow> rafScroll n' = rafScroll n"
    by simp_all
  have w: "\<not> truthy (rafScroll n) \<or> frames p \<noteq> []"
    "list_all (\<lambda>tm. clickTimeout n = Some (fst tm) \<and> fst tm \<noteq> 0) (timers p)"
    using assms(1) by (simp_all add: nav_wf_def s)
  have "\<not> truthy (rafScroll n')"
  proof (cases "frames p = []")
    case True
    then show ?thesis using f(5) w(1) by simp
  next
    case False
    then show ?thesis using f(4) by (simp add: truthy_def)
  qed
  then show ?thesis using w(2) f(2,3) by (simp add: nav_wf_def s')
qed

lemma nav_wf_preserved:
  assumes "nav_wf s" "nav_handle ev (advance t s) = Inr s'"
  shows "nav_wf s'"
proof (cases ev)
  case (ClickNavItem item)
  then show ?thesis using assms nav_wf_onNavItemClick[OF nav_wf_advance] by simp
next
  case (KeyDownNavItem k item)
  show ?thesis
  proof (cases "activation_key k")
    case True
    then show ?thesis
      using assms KeyDownNavItem nav_wf_onNavItemClick[OF nav_wf_advance]
      by (simp add: navItemKeyDown_def)
  next
    case False
    then show ?thesis using assms KeyDownNavItem nav_wf_advance[of s t]
      by (simp add: navItemKeyDown_def)
  qed
next
  case ClickBurger
  then show ?thesis using assms nav_wf_onBurgerClick[OF nav_wf_advance] by simp
next
  case (KeyDownBurger k)
  show ?thesis
  proof (cases "activation_key k")
    case True
    then show ?thesis
      using assms KeyDownBurger nav_wf_onBurgerClick[OF nav_wf_advance]
      by (simp add: onBurgerKeyDown_def)
  next
    case False
    then show ?thesis using assms KeyDownBurger nav_wf_advance[of s t]
      by (simp add: onBurgerKeyDown_def)
  qed
next
  case Scroll
  obtain n p where a: "advance t s = (n, p)" by (cases "advance t s")
  have "nav_wf (n, p)" using nav_wf_advance[OF assms(1), of t] by (simp add: a)
  then show ?thesis using assms(2) Scroll
    by (cases "truthy (rafScroll n)")
      (auto simp: a onWindowScroll_def nav_wf_def requestAnimationFrame_def Let_def)
next
  case Frame
  then show ?thesis using assms nav_wf_frame[OF nav_wf_advance] by simp
qed

lemma sched_fold_setup [simp]:
  "timers (fold setup_navItem items p) = timers p" "frames (fold setup_navItem items p) = frames p"
  "timers (fold setup_langItem items p) = timers p" "frames (fold setup_langItem items p) = frames p"
  by (induction items arbitrary: p) (simp_all add: setup_navItem_def setup_langItem_def)

lemma setupEventListeners_sched:
  assumes "setupEventListeners s = Inr s'"
  shows "timers (snd s') = timers (snd s) \<and> frames (snd s') = frames (snd s) \<and>
         rafScroll (fst s') = rafScroll (fst s)"
proof -
  obtain b items litems where "burger (fst s) = Some b" "navItems (fst s) = Some items"
    "langItems (fst s) = Some litems"
    using assms by (auto simp: setupEventListeners_def Let_def split: option.splits)
  then show ?thesis using assms
    by (cases "langMenu (fst s)") (auto simp: setupEventListeners_def Let_def)
qed

lemma init_sched:
  assumes "init s = Inr s'"
  shows "timers (snd s') = timers (snd s) \<and> frames (snd s') = frames (snd s) \<and>
         rafScroll (fst s') = rafScroll (fst s)"
proof -
  let ?n = "(fst s)
                \<lparr>header := findElement (snd s) (selectorHeader (fst s)),
                 burger := findElement (snd s) (selectorBurger (fst s)),
                 navItems := Some (findElements (snd s) (selectorNavItems (fst s))),
                 nav := findElement (snd s) (selectorNav (fst s)),
                 langMenu := findElement (snd s) (selectorLangMenu (fst s)),
                 langItems := Some (findElements (snd s) (selectorLangItems (fst s))),
                 langList := findElement (snd s) (selectorLangList (fst s))\<rparr>"
  let ?p1 = "setAttribute ''aria-expanded'' ''false'' (the (burger ?n)) (snd s)"
  let ?p2 = "case langMenu ?n of None \<Rightarrow> ?p1
             | Some m \<Rightarrow> setAttribute ''aria-expanded'' ''false'' m ?p1"
  have p2: "timers ?p2 = timers (snd s)" "frames ?p2 = frames (snd s)"
    by (simp_all split: option.splits)
  from assms have "s' = (?n, snd s) \<or> setupEventListeners (?n, ?p2) = Inr s'"
    unfolding init_def Let_def by (simp split: if_splits)
  then show ?thesis
  proof
    assume "s' = (?n, snd s)"
    then show ?thesis by simp
  next
    assume "setupEventListeners (?n, ?p2) = Inr s'"
    from setupEventListeners_sched[OF this] p2 show ?thesis by simp
  qed
qed

lemma nav_wf_constructor:
  assumes "timers p = []" "frames p = []" "nav_constructor opts p = Inr s"
  shows "nav_wf s"
proof (cases "autoInit opts")
  case True
  let ?n = "\<lparr>selectorHeader = optHeader opts, selectorBurger = optBurger opts,
               selectorNavItems = optNavItems opts, selectorNav = optNav opts,
               selectorLangMenu = optLangMenu opts, selectorLangItems = optLangItems opts,
               selectorLangList = optLangList opts,
               header = None, burger = None, navItems = None, nav = None, langMenu = None,
               langItems = None, langList = None,
               permiteClickReciente = False, clickTimeout = None, rafScroll = None,
               handlers = no_handlers\<rparr>"
  have "init (?n, p) = Inr s" using assms(3) True by (simp add: nav_constructor_def)
  from init_sched[OF this] show ?thesis using assms(1,2) by (simp add: nav_wf_def truthy_def)
next
  case False
  then show ?thesis using assms by (auto simp: nav_constructor_def nav_wf_def truthy_def)
qed

text \<open>
  Claim C8: a click on a navigation item at time \<open>t0\<close> opens a window of 800 ms. After any
  scroll events and frames handled before \<open>t0 + 800\<close> the clicked item is still the one
  active item: a scroll handler that runs within the window clears nothing. A scroll event
  whose handler runs in a frame later than \<open>t0 + 800\<close> leaves no navigation item active.
  Timeouts run when they are due, before anything else handled at that time or later.
\<close>

theorem scroll_suppression_window:
  assumes "burger n = Some b" "nav n = Some v" "header n = Some h" "navItems n = Some items"
    and "item \<in> set items" and "nav_wf (n, p)"
    and "\<forall>te \<in> set evs. fst te < t0 + 800 \<and> (snd te = Scroll \<or> snd te = Frame)"
  shows "\<exists>s1 s2. nav_run [(t0, ClickNavItem item)] (n, p) = Inr s1 \<and> nav_run evs s1 = Inr s2 \<and>
           (\<forall>r \<in> set items. has_class (snd s2) r ''item--active'' = (r = item)) \<and>
           (t0 + 800 < tf \<longrightarrow>
              (\<exists>s3. nav_run [(ts, Scroll), (tf, Frame)] s2 = Inr s3 \<and>
                 (\<forall>r \<in> set items. \<not> has_class (snd s3) r ''item--active'')))"
proof -
  obtain na pa where a: "advance t0 (n, p) = (na, pa)" by (cases "advance t0 (n, p)")
  have fa: "burger na = Some b" "nav na = Some v" "header na = Some h" "navItems na = Some items"
    "rafScroll na = rafScroll n" "frames pa = frames p" "clock pa = t0"
    "clickTimeout na = clickTimeout n"
    using a assms(1-4) by (auto simp: advance_eq split: if_splits)
  have ta: "list_all (\<lambda>tm. clickTimeout na = Some (fst tm) \<and> fst tm \<noteq> 0) (timers pa)"
    using a assms(6) by (auto simp: advance_eq nav_wf_def list_all_iff split: if_splits)
  from onNavItemClick_ok[OF fa(1-4) assms(5) ta] obtain p1 where
    1: "onNavItemClick item (na, pa) =
          Inr (na\<lparr>permiteClickReciente := True, clickTimeout := Some (Suc (lastHandle pa))\<rparr>, p1)"
       "timers p1 = [(Suc (lastHandle pa), clock pa + 800)]" "frames p1 = frames pa"
       "list_all (\<lambda>r. has_class p1 r ''item--active'' = (r = item)) items"
    by blast
  let ?s1 = "(na\<lparr>permiteClickReciente := True, clickTimeout := Some (Suc (lastHandle pa))\<rparr>, p1)"
  have r1: "nav_run [(t0, ClickNavItem item)] (n, p) = Inr ?s1" by (simp add: a 1(1))
  have w1: "in_window (Suc (lastHandle pa)) t0 items item ?s1"
    using 1 fa assms(6) by (simp add: in_window_def nav_wf_def)
  from in_window_run[OF w1 assms(7)] obtain s2 where
    2: "nav_run evs ?s1 = Inr s2" "in_window (Suc (lastHandle pa)) t0 items item s2" by blast
  have c2: "\<forall>r \<in> set items. has_class (snd s2) r ''item--active'' = (r = item)"
    using 2(2) by (simp add: in_window_def list_all_iff)
  have c3: "\<exists>s3. nav_run [(ts, Scroll), (tf, Frame)] s2 = Inr s3 \<and>
                 (\<forall>r \<in> set items. \<not> has_class (snd s3) r ''item--active'')"
    if "t0 + 800 < tf"
    using after_window[OF 2(2) that, of ts] by (simp add: list_all_iff)
  from r1 2(1) c2 c3 show ?thesis by blast
qed

theorem scroll_suppression_window_witness:
  "burger (fst nav_example) = Some 2 \<and> nav (fst nav_example) = Some 3 \<and>
   header (fst nav_example) = Some 1 \<and> navItems (fst nav_example) = Some [4, 5, 6] \<and>
   5 \<in> set [4, 5, 6 :: nat] \<and> nav_wf nav_example \<and>
   (1100 :: rat) < 1000 + 800 \<and> (1116 :: rat) < 1000 + 800 \<and> (1700 :: rat) < 1000 + 800 \<and>
   (1000 :: rat) + 800 < 1816 \<and>
   (\<exists>s1 s2 s3.
      nav_run [(1000, ClickNavItem 5)] nav_example = Inr s1 \<and>
      nav_run [(1100, Scroll), (1116, Frame), (1700, Scroll)] s1 = Inr s2 \<and>
      \<not> has_class (snd s2) 4 ''item--active'' \<and> has_class (snd s2) 5 ''item--active'' \<and>
      \<not> has_class (snd s2) 6 ''item--active'' \<and>
      nav_run [(1790, Scroll), (1816, Frame)] s2 = Inr s3 \<and>
      \<not> has_class (snd s3) 4 ''item--active'' \<and> \<not> has_class (snd s3) 5 ''item--active'' \<and>
      \<not> has_class (snd s3) 6 ''item--active'')"
proof -
  note f = nav_example_fields
  have m: "5 \<in> set [4, 5, 6 :: nat]" by simp
  have e: "timers example_page = []" "frames example_page = []"
    by (simp_all add: example_page_def)
  have wf: "nav_wf (fst nav_example, snd nav_example)"
    using nav_wf_constructor[OF e nav_example_Inr] by simp
  have ev: "\<forall>te \<in> set [(1100 :: rat, Scroll), (1116, Frame), (1700, Scroll)].
              fst te < 1000 + 800 \<and> (snd te = Scroll \<or> snd te = Frame)"
    by simp
  from scroll_suppression_window[OF f(2) f(3) f(1) f(4) m wf ev, of 1816 1790]
  show ?thesis using f wf by auto
qed

end
